theory Spec2Isabelle
  imports Main
begin

section \<open>JavaScript values and strings\<close>

text \<open>
  The utilities of the Jira MCP server (\<^verbatim>\<open>convertToADF\<close>, \<^verbatim>\<open>convertADFToMarkdown\<close>,
  \<^verbatim>\<open>getJiraFields\<close>) work on values of TypeScript type \<^verbatim>\<open>any\<close>: the document trees the
  tracker returns. They are modelled as JSON values with \<^verbatim>\<open>undefined\<close> added. A number
  is an integer (JSON numbers with a fraction are outside the model), written in decimal
  as JavaScript writes the integers below \<open>10\<^sup>2\<^sup>1\<close>. An object is the list of its own
  properties in insertion order, read by the first entry with the key. A string is a list
  of code units below 256. The engine's limit on the length of a string is modelled where
  the code asks for a string of a length it reads from the input (the heading marker);
  the depth of the call stack is not modelled.
\<close>

datatype json =
    JUndef
  | JNull
  | JBool bool
  | JNum int
  | JStr string
  | JArr "json list"
  | JObj "(string \<times> json) list"

text \<open>The exceptions the code can raise.\<close>

datatype error = TypeError | RangeError

text \<open>The results of a list of steps: the first exception, or all the values.\<close>

fun all_results :: "(error + 'a) list \<Rightarrow> error + 'a list" where
  "all_results [] = Inr []"
| "all_results (r # rs) =
     (case r of
        Inl e \<Rightarrow> Inl e
      | Inr x \<Rightarrow> (case all_results rs of Inl e \<Rightarrow> Inl e | Inr xs \<Rightarrow> Inr (x # xs)))"

text \<open>Truthiness, as \<^verbatim>\<open>!v\<close>, \<^verbatim>\<open>a || b\<close> and \<^verbatim>\<open>c ? x : y\<close> test it.\<close>

fun truthy :: "json \<Rightarrow> bool" where
  "truthy JUndef = False"
| "truthy JNull = False"
| "truthy (JBool b) = b"
| "truthy (JNum n) = (n \<noteq> 0)"
| "truthy (JStr s) = (s \<noteq> [])"
| "truthy (JArr xs) = True"
| "truthy (JObj kvs) = True"

fun nullish :: "json \<Rightarrow> bool" where
  "nullish JUndef = True"
| "nullish JNull = True"
| "nullish v = False"

text \<open>
  \<^verbatim>\<open>v.k\<close> for a value that is neither \<^verbatim>\<open>null\<close> nor \<^verbatim>\<open>undefined\<close> (on those the read
  raises a TypeError, which every caller below checks first with \<open>nullish\<close>). The keys the
  code reads (\<^verbatim>\<open>type\<close>, \<^verbatim>\<open>content\<close>, \<^verbatim>\<open>text\<close>, \<^verbatim>\<open>marks\<close>, \<^verbatim>\<open>attrs\<close>, \<^verbatim>\<open>level\<close>, \<^verbatim>\<open>language\<close>,
  \<^verbatim>\<open>alt\<close>, \<^verbatim>\<open>src\<close>, \<^verbatim>\<open>href\<close>) are members of no built-in prototype, so the read is
  \<^verbatim>\<open>undefined\<close> on anything but an object that owns the key.
\<close>

fun get_prop :: "json \<Rightarrow> string \<Rightarrow> json" where
  "get_prop (JObj kvs) k = (case map_of kvs k of Some v \<Rightarrow> v | None \<Rightarrow> JUndef)"
| "get_prop v k = JUndef"

text \<open>\<^verbatim>\<open>a?.k\<close>\<close>

definition opt_prop :: "json \<Rightarrow> string \<Rightarrow> json" where
  "opt_prop a k = (if nullish a then JUndef else get_prop a k)"

text \<open>\<^verbatim>\<open>a || b\<close>\<close>

definition or_else :: "json \<Rightarrow> json \<Rightarrow> json" where
  "or_else a b = (if truthy a then a else b)"

fun is_array :: "json \<Rightarrow> bool" where
  "is_array (JArr xs) = True"
| "is_array v = False"

fun elems :: "json \<Rightarrow> json list" where
  "elems (JArr xs) = xs"
| "elems v = []"

subsection \<open>Strings\<close>

abbreviation NL :: char where
  "NL \<equiv> CHR 0x0A"

abbreviation CR :: char where
  "CR \<equiv> CHR 0x0D"

text \<open>\<^verbatim>\<open>xs.join(sep)\<close> on strings.\<close>

fun join :: "string \<Rightarrow> string list \<Rightarrow> string" where
  "join sep [] = []"
| "join sep [x] = x"
| "join sep (x # y # ys) = x @ sep @ join sep (y # ys)"

text \<open>\<^verbatim>\<open>s.split('\n')\<close>: the pieces between newlines, never the empty list.\<close>

fun split_nl :: "string \<Rightarrow> string list" where
  "split_nl [] = [[]]"
| "split_nl (c # cs) =
     (if c = NL then [] # split_nl cs
      else (case split_nl cs of
              [] \<Rightarrow> [[c]]
            | l # ls \<Rightarrow> (c # l) # ls))"

text \<open>
  The white space and line terminators \<^verbatim>\<open>String.prototype.trim\<close> strips, among the code
  units below 256: tab, line feed, vertical tab, form feed, carriage return, space and the
  no-break space.
\<close>

definition is_space :: "char \<Rightarrow> bool" where
  "is_space c = (c \<in> set [CHR 0x09, NL, CHR 0x0B, CHR 0x0C, CR, CHR '' '', CHR 0xA0])"

definition trim :: "string \<Rightarrow> string" where
  "trim s = rev (dropWhile is_space (rev (dropWhile is_space s)))"

text \<open>\<^verbatim>\<open>s.startsWith(p)\<close>, \<^verbatim>\<open>s.endsWith(c)\<close> for a one-character \<open>c\<close>.\<close>

definition startsWith :: "string \<Rightarrow> string \<Rightarrow> bool" where
  "startsWith s p = (take (length p) s = p)"

definition endsWith :: "string \<Rightarrow> char \<Rightarrow> bool" where
  "endsWith s c = (s \<noteq> [] \<and> last s = c)"

text \<open>\<^verbatim>\<open>s.replace(/c/g, r)\<close> for a one-character pattern.\<close>

fun replace_all :: "char \<Rightarrow> string \<Rightarrow> string \<Rightarrow> string" where
  "replace_all c r [] = []"
| "replace_all c r (x # xs) = (if x = c then r @ replace_all c r xs else x # replace_all c r xs)"

text \<open>Decimal numerals, as \<^verbatim>\<open>String(n)\<close> writes an integer.\<close>

definition digit_char :: "nat \<Rightarrow> char" where
  "digit_char d = ''0123456789'' ! (d mod 10)"

function show_nat :: "nat \<Rightarrow> string" where
  "show_nat n = (if n < 10 then [digit_char n] else show_nat (n div 10) @ [digit_char (n mod 10)])"
  by pat_completeness auto
termination
  by (relation "measure id") auto

declare show_nat.simps [simp del]

definition show_int :: "int \<Rightarrow> string" where
  "show_int i = (if i < 0 then CHR ''-'' # show_nat (nat (- i)) else show_nat (nat i))"

section \<open>Text to document: \<^verbatim>\<open>convertToADF\<close>\<close>

datatype list_type = Bullet | Ordered

text \<open>
  The loop's variables. \<^verbatim>\<open>currentList\<close> is a reference to a list node that was pushed onto
  \<^verbatim>\<open>content\<close> when it was created, and the code adds items through the reference after
  other nodes were pushed behind it. The reference is modelled as the position of that
  node in \<open>content\<close> (\<open>None\<close> is \<^verbatim>\<open>null\<close>).
\<close>

record conv_state =
  content :: "json list"
  currentList :: "nat option"
  currentListType :: "list_type option"

definition text_node :: "string \<Rightarrow> json" where
  "text_node t = JObj [(''type'', JStr ''text''), (''text'', JStr t)]"

definition paragraph_node :: "string \<Rightarrow> json" where
  "paragraph_node t = JObj [(''type'', JStr ''paragraph''), (''content'', JArr [text_node t])]"

definition heading_node :: "string \<Rightarrow> json" where
  "heading_node t =
     JObj [(''type'', JStr ''heading''),
           (''attrs'', JObj [(''level'', JNum 2)]),
           (''content'', JArr [text_node t])]"

definition list_item_node :: "string \<Rightarrow> json" where
  "list_item_node t = JObj [(''type'', JStr ''listItem''), (''content'', JArr [paragraph_node t])]"

definition list_node :: "list_type \<Rightarrow> json list \<Rightarrow> json" where
  "list_node lt items =
     JObj [(''type'', JStr (case lt of Bullet \<Rightarrow> ''bulletList'' | Ordered \<Rightarrow> ''orderedList'')),
           (''content'', JArr items)]"

fun set_prop :: "string \<Rightarrow> json \<Rightarrow> (string \<times> json) list \<Rightarrow> (string \<times> json) list" where
  "set_prop k v [] = [(k, v)]"
| "set_prop k v ((k', v') # kvs) =
     (if k = k' then (k, v) # kvs else (k', v') # set_prop k v kvs)"

text \<open>\<^verbatim>\<open>node.content.push(item)\<close>\<close>

fun push_content :: "json \<Rightarrow> json \<Rightarrow> error + json" where
  "push_content item (JObj kvs) =
     (case map_of kvs ''content'' of
        Some (JArr xs) \<Rightarrow> Inr (JObj (set_prop ''content'' (JArr (xs @ [item])) kvs))
      | _ \<Rightarrow> Inl TypeError)"
| "push_content item v = Inl TypeError"

text \<open>\<^verbatim>\<open>currentList.content.push(item)\<close>: the node the reference points to is changed in place.\<close>

definition push_to_current :: "json \<Rightarrow> conv_state \<Rightarrow> error + conv_state" where
  "push_to_current item st =
     (case currentList st of
        None \<Rightarrow> Inl TypeError
      | Some r \<Rightarrow>
          if r < length (content st) then
            (case push_content item (content st ! r) of
               Inl e \<Rightarrow> Inl e
             | Inr n \<Rightarrow> Inr (st\<lparr>content := (content st)[r := n]\<rparr>))
          else Inl TypeError)"

text \<open>
  \<^verbatim>\<open>if (currentListType !== lt) { currentList = {type, content: []}; content.push(currentList);
  currentListType = lt }\<close>
\<close>

definition open_list :: "list_type \<Rightarrow> conv_state \<Rightarrow> conv_state" where
  "open_list lt st =
     (if currentListType st \<noteq> Some lt then
        st\<lparr>content := content st @ [list_node lt []],
           currentList := Some (length (content st)),
           currentListType := Some lt\<rparr>
      else st)"

definition is_digit :: "char \<Rightarrow> bool" where
  "is_digit c = (c \<in> set ''0123456789'')"

text \<open>The characters the regular expression's \<^verbatim>\<open>.\<close> does not match.\<close>

definition is_line_terminator :: "char \<Rightarrow> bool" where
  "is_line_terminator c = (c = NL \<or> c = CR)"

text \<open>
  \<^verbatim>\<open>s.match(/^(\d+)\. (.*)/)\<close>: \<open>None\<close> when there is no match, else the second group.
  The digits group is greedy and must be followed by a period, so it is the whole leading
  run of digits; the second group runs up to the first line terminator.
\<close>

definition numberedMatch :: "string \<Rightarrow> string option" where
  "numberedMatch s =
     (let ds = takeWhile is_digit s; r = dropWhile is_digit s
      in if ds \<noteq> [] \<and> take 2 r = ''. ''
         then Some (takeWhile (\<lambda>c. \<not> is_line_terminator c) (drop 2 r))
         else None)"

text \<open>The heading test of the loop body, on the line, the next line and \<^verbatim>\<open>i === lines.length - 1\<close>.\<close>

definition heading_cond :: "string \<Rightarrow> string \<Rightarrow> bool \<Rightarrow> bool" where
  "heading_cond line nextLine is_last =
     (length (trim line) > 0 \<and>
      (trim nextLine = [] \<or> is_last) \<and>
      \<not> endsWith (trim line) CHR ''.'' \<and>
      \<not> endsWith (trim line) CHR ''?'' \<and>
      \<not> endsWith (trim line) CHR ''!'' \<and>
      length (trim line) < 50)"

text \<open>One iteration of the loop.\<close>

definition convert_line :: "string \<Rightarrow> string \<Rightarrow> bool \<Rightarrow> conv_state \<Rightarrow> error + conv_state" where
  "convert_line line nextLine is_last st =
     (if trim line = [] then
        Inr (st\<lparr>currentList := None, currentListType := None\<rparr>)
      else if startsWith (trim line) ''- '' then
        push_to_current (list_item_node (drop 2 (trim line))) (open_list Bullet st)
      else
        (case numberedMatch (trim line) of
           Some listItem \<Rightarrow> push_to_current (list_item_node listItem) (open_list Ordered st)
         | None \<Rightarrow>
             if heading_cond line nextLine is_last then
               Inr (st\<lparr>content := content st @ [heading_node (trim line)]\<rparr>)
             else
               Inr (st\<lparr>content := content st @ [paragraph_node line]\<rparr>)))"

text \<open>
  The loop \<^verbatim>\<open>for (let i = 0; i < lines.length; i++)\<close>, over the lines from \<open>i\<close> on:
  \<^verbatim>\<open>lines[i + 1] || ""\<close> is the head of the rest, or the empty string at the last line.
\<close>

fun convert_lines :: "string list \<Rightarrow> conv_state \<Rightarrow> error + conv_state" where
  "convert_lines [] st = Inr st"
| "convert_lines (line # rest) st =
     (case convert_line line (case rest of [] \<Rightarrow> [] | nl # _ \<Rightarrow> nl) (rest = []) st of
        Inl e \<Rightarrow> Inl e
      | Inr st' \<Rightarrow> convert_lines rest st')"

definition init_state :: conv_state where
  "init_state = \<lparr>content = [], currentList = None, currentListType = None\<rparr>"

definition doc_node :: "json list \<Rightarrow> json" where
  "doc_node c = JObj [(''version'', JNum 1), (''type'', JStr ''doc''), (''content'', JArr c)]"

definition convertToADF :: "string \<Rightarrow> error + json" where
  "convertToADF txt =
     (case convert_lines (split_nl txt) init_state of
        Inl e \<Rightarrow> Inl e
      | Inr st \<Rightarrow> Inr (doc_node (content st)))"

section \<open>Document to Markdown: \<^verbatim>\<open>convertADFToMarkdown\<close>\<close>

subsection \<open>Coercions\<close>

text \<open>
  \<^verbatim>\<open>ToString\<close>, as template literals and \<^verbatim>\<open>join\<close> apply it. An array is its elements
  joined by commas, \<^verbatim>\<open>null\<close> and \<^verbatim>\<open>undefined\<close> elements written as the empty string. An
  object is converted by its \<^verbatim>\<open>toString\<close> method: the inherited one gives
  \<^verbatim>\<open>[object Object]\<close>, but an own property of that name (which in a JSON value is never a
  function) hides it, and then the conversion raises a TypeError.
\<close>

fun to_string :: "json \<Rightarrow> error + string" where
  "to_string JUndef = Inr ''undefined''"
| "to_string JNull = Inr ''null''"
| "to_string (JBool b) = Inr (if b then ''true'' else ''false'')"
| "to_string (JNum n) = Inr (show_int n)"
| "to_string (JStr s) = Inr s"
| "to_string (JArr xs) =
     (case all_results (map (\<lambda>v. if nullish v then Inr [] else to_string v) xs) of
        Inl e \<Rightarrow> Inl e
      | Inr ss \<Rightarrow> Inr (join '','' ss))"
| "to_string (JObj kvs) =
     (if map_of kvs ''toString'' \<noteq> None then Inl TypeError else Inr ''[object Object]'')"

text \<open>\<^verbatim>\<open>xs.join(sep)\<close> on values.\<close>

definition js_join :: "string \<Rightarrow> json list \<Rightarrow> error + string" where
  "js_join sep vs =
     (case all_results (map (\<lambda>v. if nullish v then Inr [] else to_string v) vs) of
        Inl e \<Rightarrow> Inl e
      | Inr ss \<Rightarrow> Inr (join sep ss))"

text \<open>A string result as a value.\<close>

definition as_value :: "error + string \<Rightarrow> error + json" where
  "as_value r = (case r of Inl e \<Rightarrow> Inl e | Inr s \<Rightarrow> Inr (JStr s))"

subsection \<open>Numbers from strings\<close>

text \<open>
  \<^verbatim>\<open>'#'.repeat(level)\<close> converts its argument with \<^verbatim>\<open>ToIntegerOrInfinity\<close>; for a string
  that is \<^verbatim>\<open>StringToNumber\<close>, rounded to a double and truncated. The string is trimmed; the
  empty string is zero; a literal is \<^verbatim>\<open>0x\<close>, \<^verbatim>\<open>0o\<close> or \<^verbatim>\<open>0b\<close> with digits of that base, or an
  optional sign before \<^verbatim>\<open>Infinity\<close> or before decimal digits with an optional fraction and
  an optional exponent; anything else is \<^verbatim>\<open>NaN\<close>, which counts as zero.
\<close>

fun index_of :: "'a \<Rightarrow> 'a list \<Rightarrow> nat option" where
  "index_of x [] = None"
| "index_of x (y # ys) = (if x = y then Some 0 else map_option Suc (index_of x ys))"

definition digit_value :: "char \<Rightarrow> nat option" where
  "digit_value c =
     (case index_of c ''0123456789abcdef'' of
        Some v \<Rightarrow> Some v
      | None \<Rightarrow> map_option (\<lambda>v. 10 + v) (index_of c ''ABCDEF''))"

text \<open>A non-empty run of digits of base \<open>b\<close>, and its value.\<close>

definition digits_in :: "nat \<Rightarrow> string \<Rightarrow> bool" where
  "digits_in b s =
     (s \<noteq> [] \<and> list_all (\<lambda>c. case digit_value c of Some v \<Rightarrow> v < b | None \<Rightarrow> False) s)"

definition digits_value :: "nat \<Rightarrow> string \<Rightarrow> nat" where
  "digits_value b s =
     foldl (\<lambda>acc c. acc * b + (case digit_value c of Some v \<Rightarrow> v | None \<Rightarrow> 0)) 0 s"

definition non_decimal :: "string \<Rightarrow> nat option" where
  "non_decimal t =
     (if take 2 t \<in> set [''0x'', ''0X''] \<and> digits_in 16 (drop 2 t)
        then Some (digits_value 16 (drop 2 t))
      else if take 2 t \<in> set [''0o'', ''0O''] \<and> digits_in 8 (drop 2 t)
        then Some (digits_value 8 (drop 2 t))
      else if take 2 t \<in> set [''0b'', ''0B''] \<and> digits_in 2 (drop 2 t)
        then Some (digits_value 2 (drop 2 t))
      else None)"

text \<open>An optional sign: whether it is a minus, and what follows it.\<close>

fun signed :: "string \<Rightarrow> bool \<times> string" where
  "signed [] = (False, [])"
| "signed (c # cs) =
     (if c = CHR ''-'' then (True, cs) else if c = CHR ''+'' then (False, cs) else (False, c # cs))"

text \<open>The exponent part, or nothing; \<open>None\<close> when what is left is neither.\<close>

definition exponent_part :: "string \<Rightarrow> int option" where
  "exponent_part r =
     (if r = [] then Some 0
      else if hd r \<in> set ''eE'' \<and> digits_in 10 (snd (signed (tl r)))
      then Some ((if fst (signed (tl r)) then - 1 else 1) *
                 int (digits_value 10 (snd (signed (tl r)))))
      else None)"

text \<open>
  An unsigned decimal literal as a mantissa \<open>m\<close> and an exponent \<open>e\<close>, its value being
  \<open>m \<times> 10\<^sup>e\<close>: digits, a point and digits, with digits on at least one side of the point.
\<close>

definition decimal :: "string \<Rightarrow> (nat \<times> int) option" where
  "decimal w =
     (let ip = takeWhile is_digit w; r1 = dropWhile is_digit w;
          dot = (r1 \<noteq> [] \<and> hd r1 = CHR ''.'');
          fp = (if dot then takeWhile is_digit (tl r1) else []);
          r2 = (if dot then dropWhile is_digit (tl r1) else r1)
      in if ip = [] \<and> fp = [] then None
         else (case exponent_part r2 of
                 None \<Rightarrow> None
               | Some e \<Rightarrow> Some (digits_value 10 (ip @ fp), e - int (length fp))))"

function floor_log2 :: "nat \<Rightarrow> nat" where
  "floor_log2 n = (if n < 2 then 0 else Suc (floor_log2 (n div 2)))"
  by pat_completeness auto
termination
  by (relation "measure id") auto

declare floor_log2.simps [simp del]

text \<open>
  The integer part of the double nearest to \<open>m \<times> 10\<^sup>e\<close>. With \<open>k\<close> the integer part of the
  exact value, rounding to a double gives \<open>k + 1\<close> when the value is at most half a step
  below it, the step being the distance from \<open>k + 1\<close> to the double before it (a tie goes to
  \<open>k + 1\<close>, whose significand is even), and \<open>k\<close> otherwise. From \<open>2\<^sup>5\<^sup>2\<close> on the exact
  integer part is returned; such counts are beyond every string.
\<close>

definition truncated :: "nat \<Rightarrow> int \<Rightarrow> nat" where
  "truncated m e =
     (if 0 \<le> e then m * 10 ^ nat e
      else
        (let d = nat (- e); k = m div 10 ^ d; j = floor_log2 (k + 1);
             p = (if k + 1 = 2 ^ j then 54 - j else 53 - j)
         in if 2 ^ 52 \<le> k then k
            else if ((k + 1) * 2 ^ p - 1) * 10 ^ d \<le> m * 2 ^ p then k + 1
            else k))"

text \<open>
  \<^verbatim>\<open>ToIntegerOrInfinity(StringToNumber(s))\<close>; \<open>None\<close> is an infinity of either sign, which
  \<^verbatim>\<open>repeat\<close> refuses alike.
\<close>

definition string_to_count :: "string \<Rightarrow> int option" where
  "string_to_count s =
     (if trim s = [] then Some 0
      else (case non_decimal (trim s) of
              Some n \<Rightarrow> Some (int n)
            | None \<Rightarrow>
                if snd (signed (trim s)) = ''Infinity'' then None
                else (case decimal (snd (signed (trim s))) of
                        None \<Rightarrow> Some 0
                      | Some (m, e) \<Rightarrow>
                          Some ((if fst (signed (trim s)) then - 1 else 1) * int (truncated m e)))))"

subsection \<open>The heading marker\<close>

text \<open>
  The longest string the engine makes: \<^verbatim>\<open>0x1fffffe8\<close> characters in the V8 of the current
  Node.js releases on 64-bit platforms (\<^verbatim>\<open>buffer.constants.MAX_STRING_LENGTH\<close>).
\<close>

definition max_string_length :: nat where
  "max_string_length = 2 ^ 29 - 24"

text \<open>\<^verbatim>\<open>'#'.repeat(n)\<close> for an integer \<open>n\<close>: a RangeError for a negative count and for a string
  that would be too long.\<close>

definition repeat_count :: "int \<Rightarrow> error + string" where
  "repeat_count n =
     (if n < 0 \<or> int max_string_length < n then Inl RangeError
      else Inr (replicate (nat n) CHR ''#''))"

text \<open>
  \<^verbatim>\<open>'#'.repeat(level)\<close>. A boolean counts as 0 or 1, \<^verbatim>\<open>null\<close> and \<^verbatim>\<open>undefined\<close> as zero. An
  array is converted through its string; so is an object, whose string is no numeral,
  and the conversion raises when the object owns a \<^verbatim>\<open>toString\<close> property.
\<close>

fun repeat_hash :: "json \<Rightarrow> error + string" where
  "repeat_hash (JNum n) = repeat_count n"
| "repeat_hash (JBool b) = repeat_count (if b then 1 else 0)"
| "repeat_hash JNull = repeat_count 0"
| "repeat_hash JUndef = repeat_count 0"
| "repeat_hash (JStr s) =
     (case string_to_count s of None \<Rightarrow> Inl RangeError | Some n \<Rightarrow> repeat_count n)"
| "repeat_hash (JArr xs) =
     (case to_string (JArr xs) of
        Inl e \<Rightarrow> Inl e
      | Inr s \<Rightarrow> (case string_to_count s of None \<Rightarrow> Inl RangeError | Some n \<Rightarrow> repeat_count n))"
| "repeat_hash (JObj kvs) =
     (if map_of kvs ''toString'' \<noteq> None then Inl TypeError else repeat_count 0)"

text \<open>
  \<^verbatim>\<open>`${headingMarker} ${headingContent}`\<close>: the marker can be as long as a string may be,
  and then the concatenation is refused.
\<close>

definition heading_line :: "string \<Rightarrow> string \<Rightarrow> error + json" where
  "heading_line headingMarker headingContent =
     (if max_string_length < length (headingMarker @ '' '' @ headingContent) then Inl RangeError
      else Inr (JStr (headingMarker @ '' '' @ headingContent)))"

subsection \<open>Array methods\<close>

text \<open>
  \<^verbatim>\<open>xs.map((x, i) => f(x, i))\<close>, the elements from index \<open>i\<close> on: the callback runs on each
  element in order, and the first exception ends the traversal.
\<close>

fun array_map_from :: "nat \<Rightarrow> (json \<Rightarrow> nat \<Rightarrow> error + json) \<Rightarrow> json list \<Rightarrow> error + json list" where
  "array_map_from i f [] = Inr []"
| "array_map_from i f (x # xs) =
     (case f x i of
        Inl e \<Rightarrow> Inl e
      | Inr y \<Rightarrow>
          (case array_map_from (Suc i) f xs of
             Inl e \<Rightarrow> Inl e
           | Inr ys \<Rightarrow> Inr (y # ys)))"

text \<open>
  \<^verbatim>\<open>c ? c.map(f).join(sep) : ''\<close>, the pattern every container case uses on
  \<^verbatim>\<open>node.content\<close>. A truthy \<open>c\<close> that is no array has no \<^verbatim>\<open>map\<close> method: the call raises.
\<close>

definition map_join :: "(json \<Rightarrow> nat \<Rightarrow> error + json) \<Rightarrow> string \<Rightarrow> json \<Rightarrow> error + string" where
  "map_join f sep c =
     (if \<not> truthy c then Inr []
      else if \<not> is_array c then Inl TypeError
      else (case array_map_from 0 f (elems c) of
              Inl e \<Rightarrow> Inl e
            | Inr rs \<Rightarrow> js_join sep rs))"

subsection \<open>Text marks\<close>

text \<open>\<^verbatim>\<open>`${l}${txt}${r}`\<close>\<close>

definition wrap :: "string \<Rightarrow> string \<Rightarrow> json \<Rightarrow> error + json" where
  "wrap l r txt = (case to_string txt of Inl e \<Rightarrow> Inl e | Inr s \<Rightarrow> Inr (JStr (l @ s @ r)))"

text \<open>The body of \<^verbatim>\<open>switch (mark.type)\<close>: one mark wrapped around the text so far.\<close>

definition apply_mark :: "json \<Rightarrow> json \<Rightarrow> error + json" where
  "apply_mark txt mark =
     (if nullish mark then Inl TypeError
      else if get_prop mark ''type'' = JStr ''strong'' then wrap ''**'' ''**'' txt
      else if get_prop mark ''type'' = JStr ''em'' then wrap ''*'' ''*'' txt
      else if get_prop mark ''type'' = JStr ''code'' then wrap [CHR 0x60] [CHR 0x60] txt
      else if get_prop mark ''type'' = JStr ''strike'' then wrap ''~~'' ''~~'' txt
      else if get_prop mark ''type'' = JStr ''link'' then
        (case to_string txt of
           Inl e \<Rightarrow> Inl e
         | Inr s \<Rightarrow>
             (case to_string (or_else (opt_prop (get_prop mark ''attrs'') ''href'') (JStr [])) of
                Inl e \<Rightarrow> Inl e
              | Inr href \<Rightarrow> Inr (JStr (''['' @ s @ '']('' @ href @ '')''))))
      else Inr txt)"

fun apply_marks :: "json \<Rightarrow> json list \<Rightarrow> error + json" where
  "apply_marks txt [] = Inr txt"
| "apply_marks txt (mark # marks) =
     (case apply_mark txt mark of
        Inl e \<Rightarrow> Inl e
      | Inr txt' \<Rightarrow> apply_marks txt' marks)"

text \<open>
  What \<^verbatim>\<open>for (const mark of v)\<close> iterates over: the elements of an array, the characters
  of a string; any other value is not iterable.
\<close>

fun iterate :: "json \<Rightarrow> error + json list" where
  "iterate (JArr xs) = Inr xs"
| "iterate (JStr s) = Inr (map (\<lambda>c. JStr [c]) s)"
| "iterate v = Inl TypeError"

text \<open>The \<^verbatim>\<open>'text'\<close> case of \<^verbatim>\<open>processNode\<close>.\<close>

definition render_text :: "json \<Rightarrow> error + json" where
  "render_text node =
     (if truthy (get_prop node ''marks'') then
        (case iterate (get_prop node ''marks'') of
           Inl e \<Rightarrow> Inl e
         | Inr marks \<Rightarrow> apply_marks (or_else (get_prop node ''text'') (JStr [])) marks)
      else Inr (or_else (get_prop node ''text'') (JStr [])))"

subsection \<open>Tables\<close>

text \<open>The two loops of \<^verbatim>\<open>processTable\<close>, over the cells of a row and over the rows.\<close>

fun table_cells :: "(json \<Rightarrow> error + json) \<Rightarrow> json list \<Rightarrow> error + string list" where
  "table_cells f [] = Inr []"
| "table_cells f (cell # cells) =
     (if nullish cell then Inl TypeError
      else (case map_join (\<lambda>n i. f n) [] (get_prop cell ''content'') of
              Inl e \<Rightarrow> Inl e
            | Inr cellContent \<Rightarrow>
                (case table_cells f cells of
                   Inl e \<Rightarrow> Inl e
                 | Inr rest \<Rightarrow>
                     Inr (replace_all CHR ''|'' [CHR 0x5C, CHR ''|''] cellContent # rest))))"

fun table_rows :: "(json \<Rightarrow> error + json) \<Rightarrow> json list \<Rightarrow> error + string list list" where
  "table_rows f [] = Inr []"
| "table_rows f (row # rows) =
     (if nullish row then Inl TypeError
      else if \<not> truthy (get_prop row ''content'') \<or> \<not> is_array (get_prop row ''content'') then
        table_rows f rows
      else (case table_cells f (elems (get_prop row ''content'')) of
              Inl e \<Rightarrow> Inl e
            | Inr cells \<Rightarrow>
                (case table_rows f rows of
                   Inl e \<Rightarrow> Inl e
                 | Inr rest \<Rightarrow> Inr (cells # rest))))"

text \<open>\<^verbatim>\<open>`| ${row.join(' | ')} |`\<close>\<close>

definition row_line :: "string list \<Rightarrow> string" where
  "row_line row = ''| '' @ join '' | '' row @ '' |''"

text \<open>The \<^verbatim>\<open>'image'\<close> case of \<^verbatim>\<open>processNode\<close>.\<close>

definition render_image :: "json \<Rightarrow> error + json" where
  "render_image node =
     (case to_string (or_else (opt_prop (get_prop node ''attrs'') ''alt'') (JStr [])) of
        Inl e \<Rightarrow> Inl e
      | Inr alt \<Rightarrow>
          (case to_string (or_else (opt_prop (get_prop node ''attrs'') ''src'') (JStr [])) of
             Inl e \<Rightarrow> Inl e
           | Inr src \<Rightarrow> Inr (JStr (''!['' @ alt @ '']('' @ src @ '')''))))"

text \<open>The part of \<^verbatim>\<open>processTable\<close> after the loops.\<close>

definition markdown_table :: "string list list \<Rightarrow> string" where
  "markdown_table tableRows =
     (case tableRows of
        [] \<Rightarrow> []
      | headerRow # bodyRows \<Rightarrow>
          join [NL] (row_line headerRow # row_line (map (\<lambda>_. ''---'') headerRow) #
                     map row_line bodyRows))"

text \<open>Congruence rules: the traversals apply their callback to elements of the array only.\<close>

lemma array_map_from_cong [fundef_cong]:
  assumes "xs = ys" "i = j" "\<And>x k. x \<in> set ys \<Longrightarrow> f x k = g x k"
  shows "array_map_from i f xs = array_map_from j g ys"
  using assms by (induction ys arbitrary: xs i j) (auto split: sum.splits)

lemma map_join_cong [fundef_cong]:
  assumes "c = c'" "sep = sep'" "\<And>x k. x \<in> set (elems c') \<Longrightarrow> f x k = g x k"
  shows "map_join f sep c = map_join g sep' c'"
proof -
  have "array_map_from 0 f (elems c') = array_map_from 0 g (elems c')"
    by (rule array_map_from_cong) (simp_all add: assms(3))
  then show ?thesis
    by (simp add: map_join_def assms(1,2))
qed

lemma table_cells_cong [fundef_cong]:
  assumes "cells = cells'"
    "\<And>cell n. cell \<in> set cells' \<Longrightarrow> n \<in> set (elems (get_prop cell ''content'')) \<Longrightarrow> f n = g n"
  shows "table_cells f cells = table_cells g cells'"
  using assms
proof (induction cells' arbitrary: cells)
  case Nil
  then show ?case by simp
next
  case (Cons c cs)
  have "map_join (\<lambda>n i. f n) [] (get_prop c ''content'') = map_join (\<lambda>n i. g n) [] (get_prop c ''content'')"
    by (rule map_join_cong) (simp_all add: Cons.prems(2) [of c])
  moreover have "table_cells f cs = table_cells g cs"
    by (rule Cons.IH) (auto intro: Cons.prems(2))
  ultimately show ?case using Cons.prems(1) by (simp split: sum.splits)
qed

lemma table_rows_cong [fundef_cong]:
  assumes "rows = rows'"
    "\<And>row cell n. row \<in> set rows' \<Longrightarrow> cell \<in> set (elems (get_prop row ''content'')) \<Longrightarrow>
       n \<in> set (elems (get_prop cell ''content'')) \<Longrightarrow> f n = g n"
  shows "table_rows f rows = table_rows g rows'"
  using assms
proof (induction rows' arbitrary: rows)
  case Nil
  then show ?case by simp
next
  case (Cons r rs)
  have "table_cells f (elems (get_prop r ''content'')) = table_cells g (elems (get_prop r ''content''))"
    by (rule table_cells_cong) (simp_all add: Cons.prems(2) [of r])
  moreover have "table_rows f rs = table_rows g rs"
    by (rule Cons.IH) (auto intro: Cons.prems(2))
  ultimately show ?case using Cons.prems(1) by (simp split: sum.splits)
qed

subsection \<open>The node renderer\<close>

text \<open>
  \<^verbatim>\<open>processNode\<close>, \<^verbatim>\<open>processTable\<close> and \<^verbatim>\<open>processListItem\<close> call each other; every call
  is on a node inside the caller's \<^verbatim>\<open>content\<close>, or on the same node for the table case, so
  the recursion ends.
\<close>

lemma size_map_of: "map_of kvs k = Some v \<Longrightarrow> size v < size (JObj kvs)"
  by (induction kvs) (auto split: if_splits)

lemma size_elems_get_prop: "x \<in> set (elems (get_prop v k)) \<Longrightarrow> size x < size v"
proof (cases v)
  case (JObj kvs)
  assume x: "x \<in> set (elems (get_prop v k))"
  then obtain w where w: "map_of kvs k = Some w" "x \<in> set (elems w)"
    using JObj by (auto split: option.splits)
  then obtain xs where "w = JArr xs" by (cases w) auto
  with w have "size x < size w" by (auto simp: less_Suc_eq_le size_list_estimation')
  with size_map_of[OF w(1)] show ?thesis using JObj by simp
qed auto

lemma size_table_child:
  assumes "row \<in> set (elems (get_prop node k))" "cell \<in> set (elems (get_prop row k'))"
    "n \<in> set (elems (get_prop cell k''))"
  shows "Suc (2 * size n) < 2 * size node"
  using size_elems_get_prop [OF assms(1)] size_elems_get_prop [OF assms(2)]
    size_elems_get_prop [OF assms(3)]
  by simp

function processNode :: "json \<Rightarrow> error + json"
  and processTable :: "json \<Rightarrow> error + json"
  and processListItem :: "json \<Rightarrow> list_type \<Rightarrow> json \<Rightarrow> error + json"
where
  "processNode node =
     (if \<not> truthy node \<or> \<not> truthy (get_prop node ''type'') then Inr (JStr [])
      else if get_prop node ''type'' = JStr ''doc'' then
        as_value (map_join (\<lambda>n i. processNode n) [NL, NL] (get_prop node ''content''))
      else if get_prop node ''type'' = JStr ''paragraph'' then
        as_value (map_join (\<lambda>n i. processNode n) [] (get_prop node ''content''))
      else if get_prop node ''type'' = JStr ''text'' then render_text node
      else if get_prop node ''type'' = JStr ''heading'' then
        (case repeat_hash (or_else (opt_prop (get_prop node ''attrs'') ''level'') (JNum 1)) of
           Inl e \<Rightarrow> Inl e
         | Inr headingMarker \<Rightarrow>
             (case map_join (\<lambda>n i. processNode n) [] (get_prop node ''content'') of
                Inl e \<Rightarrow> Inl e
              | Inr headingContent \<Rightarrow> heading_line headingMarker headingContent))
      else if get_prop node ''type'' = JStr ''bulletList'' then
        as_value
          (map_join (\<lambda>item i. processListItem item Bullet JUndef) [NL] (get_prop node ''content''))
      else if get_prop node ''type'' = JStr ''orderedList'' then
        as_value
          (map_join (\<lambda>item i. processListItem item Ordered (JNum (int i + 1))) [NL]
             (get_prop node ''content''))
      else if get_prop node ''type'' = JStr ''listItem'' then
        as_value (map_join (\<lambda>n i. processNode n) [NL] (get_prop node ''content''))
      else if get_prop node ''type'' = JStr ''codeBlock'' then
        (case map_join (\<lambda>n i. processNode n) [NL] (get_prop node ''content'') of
           Inl e \<Rightarrow> Inl e
         | Inr code \<Rightarrow>
             (case to_string (or_else (opt_prop (get_prop node ''attrs'') ''language'') (JStr [])) of
                Inl e \<Rightarrow> Inl e
              | Inr language \<Rightarrow>
                  Inr (JStr (replicate 3 (CHR 0x60) @ language @ [NL] @ code @ [NL] @
                             replicate 3 (CHR 0x60)))))
      else if get_prop node ''type'' = JStr ''blockquote'' then
        (case map_join (\<lambda>n i. processNode n) [NL, NL] (get_prop node ''content'') of
           Inl e \<Rightarrow> Inl e
         | Inr quoteContent \<Rightarrow>
             Inr (JStr (join [NL] (map (\<lambda>line. ''> '' @ line) (split_nl quoteContent)))))
      else if get_prop node ''type'' = JStr ''rule'' then Inr (JStr ''---'')
      else if get_prop node ''type'' = JStr ''table'' then processTable node
      else if get_prop node ''type'' = JStr ''image'' then render_image node
      else if get_prop node ''type'' = JStr ''hardBreak'' then Inr (JStr [NL])
      else as_value (map_join (\<lambda>n i. processNode n) [] (get_prop node ''content'')))"
| "processTable node =
     (if nullish node then Inl TypeError
      else if \<not> truthy (get_prop node ''content'') \<or> \<not> is_array (get_prop node ''content'') then
        Inr (JStr [])
      else if length (elems (get_prop node ''content'')) = 0 then Inr (JStr [])
      else (case table_rows (\<lambda>n. processNode n) (elems (get_prop node ''content'')) of
              Inl e \<Rightarrow> Inl e
            | Inr tableRows \<Rightarrow> Inr (JStr (markdown_table tableRows))))"
| "processListItem node listType index =
     (if nullish node then Inl TypeError
      else (case map_join (\<lambda>n i. processNode n) [] (get_prop node ''content'') of
              Inl e \<Rightarrow> Inl e
            | Inr c \<Rightarrow>
                (case (case listType of
                         Bullet \<Rightarrow> Inr ''- ''
                       | Ordered \<Rightarrow>
                           (case to_string index of Inl e \<Rightarrow> Inl e | Inr s \<Rightarrow> Inr (s @ ''. ''))) of
                   Inl e \<Rightarrow> Inl e
                 | Inr prefix \<Rightarrow>
                     Inr (JStr (prefix @ replace_all NL [NL, CHR '' '', CHR '' ''] c)))))"
  by pat_completeness auto
termination
  apply (relation "measure (\<lambda>x. case x of Inl n \<Rightarrow> 2 * size n + 1
                         | Inr (Inl n) \<Rightarrow> 2 * size n
                         | Inr (Inr (n, _, _)) \<Rightarrow> 2 * size n + 1)")
  apply (auto dest: size_elems_get_prop intro: size_table_child)
  done

declare processNode.simps [simp del] processTable.simps [simp del] processListItem.simps [simp del]

subsection \<open>The entry point\<close>

text \<open>\<^verbatim>\<open>typeof v === 'object'\<close>\<close>

fun typeof_object :: "json \<Rightarrow> bool" where
  "typeof_object JNull = True"
| "typeof_object (JArr xs) = True"
| "typeof_object (JObj kvs) = True"
| "typeof_object v = False"

definition convertADFToMarkdown :: "json \<Rightarrow> error + string" where
  "convertADFToMarkdown adf =
     (if \<not> truthy adf \<or> \<not> typeof_object adf then Inr []
      else if \<not> is_array (or_else (get_prop adf ''content'') adf) then Inr []
      else (case array_map_from 0 (\<lambda>node i. processNode node)
                   (elems (or_else (get_prop adf ''content'') adf)) of
              Inl e \<Rightarrow> Inl e
            | Inr rs \<Rightarrow>
                (case js_join [NL, NL] rs of Inl e \<Rightarrow> Inl e | Inr s \<Rightarrow> Inr (trim s))))"

section \<open>Field sets: \<^verbatim>\<open>getJiraFields\<close>\<close>

definition FIELD_SETS :: "(string \<times> string list) list" where
  "FIELD_SETS =
     [(''basic'', [''summary'', ''description'', ''status'']),
      (''navigable'', [''*navigable'', ''Rank'']),
      (''full'',
       [''*navigable'', ''id'', ''key'', ''summary'', ''description'', ''status'', ''assignee'',
        ''reporter'', ''created'', ''updated'', ''resolutiondate'', ''parent'', ''subtasks'',
        ''issuelinks'', ''comment'', ''worklog'', ''Rank''])]"

text \<open>
  \<^verbatim>\<open>FIELD_SETS\<close> is an object literal, so \<^verbatim>\<open>FIELD_SETS[key]\<close> also finds what every object
  inherits from \<^verbatim>\<open>Object.prototype\<close>: functions, and for \<^verbatim>\<open>__proto__\<close> the prototype
  itself. All of them are truthy and none is an array of field names.
\<close>

definition Object_prototype_keys :: "string list" where
  "Object_prototype_keys =
     [''constructor'', ''hasOwnProperty'', ''isPrototypeOf'', ''propertyIsEnumerable'',
      ''toLocaleString'', ''toString'', ''valueOf'', ''__proto__'', ''__defineGetter__'',
      ''__defineSetter__'', ''__lookupGetter__'', ''__lookupSetter__'']"

datatype fields_result = FieldList "string list" | PrototypeMember string | NoValue

text \<open>\<^verbatim>\<open>FIELD_SETS[key]\<close>, \<open>None\<close> for \<^verbatim>\<open>undefined\<close>.\<close>

definition field_sets_get :: "string \<Rightarrow> fields_result option" where
  "field_sets_get key =
     (case map_of FIELD_SETS key of
        Some names \<Rightarrow> Some (FieldList names)
      | None \<Rightarrow> if key \<in> set Object_prototype_keys then Some (PrototypeMember key) else None)"

text \<open>
  The argument is \<open>None\<close> when the caller passes \<^verbatim>\<open>undefined\<close>, which the default parameter
  replaces by \<^verbatim>\<open>'navigable'\<close>.
\<close>

definition getJiraFields :: "string option \<Rightarrow> fields_result" where
  "getJiraFields arg =
     (case field_sets_get (case arg of None \<Rightarrow> ''navigable'' | Some s \<Rightarrow> s) of
        Some r \<Rightarrow> r
      | None \<Rightarrow> (case field_sets_get ''navigable'' of Some r \<Rightarrow> r | None \<Rightarrow> NoValue))"

section \<open>Properties of documents, states and lines\<close>

subsection \<open>Well-formed documents\<close>

text \<open>
  The shape of the trees the encoder builds, after the data model of the specification:
  a \<^verbatim>\<open>doc\<close> holds a sequence of block nodes; a paragraph and a heading hold text leaves, a
  heading has a level from 1 to 6; a list holds \<^verbatim>\<open>listItem\<close> nodes only, and a list item
  holds paragraphs.
\<close>

definition is_string :: "json \<Rightarrow> bool" where
  "is_string v = (case v of JStr s \<Rightarrow> True | _ \<Rightarrow> False)"

definition wf_text :: "json \<Rightarrow> bool" where
  "wf_text n = (get_prop n ''type'' = JStr ''text'' \<and> is_string (get_prop n ''text''))"

definition wf_inline_content :: "json \<Rightarrow> bool" where
  "wf_inline_content c = (is_array c \<and> list_all wf_text (elems c))"

definition wf_paragraph :: "json \<Rightarrow> bool" where
  "wf_paragraph n =
     (get_prop n ''type'' = JStr ''paragraph'' \<and> wf_inline_content (get_prop n ''content''))"

definition wf_heading :: "json \<Rightarrow> bool" where
  "wf_heading n =
     (get_prop n ''type'' = JStr ''heading'' \<and>
      (case get_prop (get_prop n ''attrs'') ''level'' of
         JNum l \<Rightarrow> 1 \<le> l \<and> l \<le> 6
       | _ \<Rightarrow> False) \<and>
      wf_inline_content (get_prop n ''content''))"

definition wf_list_item :: "json \<Rightarrow> bool" where
  "wf_list_item n =
     (get_prop n ''type'' = JStr ''listItem'' \<and> is_array (get_prop n ''content'') \<and>
      list_all wf_paragraph (elems (get_prop n ''content'')))"

definition wf_list :: "json \<Rightarrow> bool" where
  "wf_list n =
     (get_prop n ''type'' \<in> set [JStr ''bulletList'', JStr ''orderedList''] \<and>
      is_array (get_prop n ''content'') \<and>
      list_all wf_list_item (elems (get_prop n ''content'')))"

definition wf_block :: "json \<Rightarrow> bool" where
  "wf_block n = (wf_paragraph n \<or> wf_heading n \<or> wf_list n)"


subsection \<open>States of the encoder's loop\<close>

text \<open>
  While a list type is current, \<^verbatim>\<open>currentList\<close> refers to a list node of that type in the
  content. Every state the loop reaches has this property and holds well-formed blocks.
\<close>

definition list_ref_ok :: "conv_state \<Rightarrow> bool" where
  "list_ref_ok st =
     (case currentListType st of
        None \<Rightarrow> True
      | Some lt \<Rightarrow>
          (case currentList st of
             None \<Rightarrow> False
           | Some r \<Rightarrow>
               r < length (content st) \<and>
               content st ! r = list_node lt (elems (get_prop (content st ! r) ''content''))))"

definition state_ok :: "conv_state \<Rightarrow> bool" where
  "state_ok st = (list_all wf_block (content st) \<and> list_ref_ok st)"

subsection \<open>Kinds of lines\<close>

text \<open>
  A line that reaches the heading test: not blank, no bullet line, no ordered-list line.
  \<open>spec_heading\<close> is the heading rule in the words of the specification, on the line and
  the lines after it. A bullet line is one whose trimmed form starts with the marker; its
  item holds what follows the marker.
\<close>

definition plain_line :: "string \<Rightarrow> bool" where
  "plain_line line =
     (trim line \<noteq> [] \<and> \<not> startsWith (trim line) ''- '' \<and> numberedMatch (trim line) = None)"

definition spec_heading :: "string \<Rightarrow> string list \<Rightarrow> bool" where
  "spec_heading line rest =
     ((case rest of [] \<Rightarrow> True | nextLine # _ \<Rightarrow> trim nextLine = []) \<and>
      \<not> endsWith (trim line) CHR ''.'' \<and>
      \<not> endsWith (trim line) CHR ''?'' \<and>
      \<not> endsWith (trim line) CHR ''!'' \<and>
      length (trim line) < 50)"

definition bullet_line :: "string \<Rightarrow> bool" where
  "bullet_line line = startsWith (trim line) ''- ''"

definition bullet_item :: "string \<Rightarrow> json" where
  "bullet_item line = list_item_node (drop 2 (trim line))"

subsection \<open>Marks and tables in the words of the specification\<close>

text \<open>
  The five marks, the object of each, and the wrapping the specification gives for each.
\<close>

datatype mark = Strong | Em | Code | Strike | Link "string option"

fun mark_node :: "mark \<Rightarrow> json" where
  "mark_node Strong = JObj [(''type'', JStr ''strong'')]"
| "mark_node Em = JObj [(''type'', JStr ''em'')]"
| "mark_node Code = JObj [(''type'', JStr ''code'')]"
| "mark_node Strike = JObj [(''type'', JStr ''strike'')]"
| "mark_node (Link None) = JObj [(''type'', JStr ''link'')]"
| "mark_node (Link (Some href)) =
     JObj [(''type'', JStr ''link''), (''attrs'', JObj [(''href'', JStr href)])]"

fun spec_wrap :: "mark \<Rightarrow> string \<Rightarrow> string" where
  "spec_wrap Strong x = ''**'' @ x @ ''**''"
| "spec_wrap Em x = ''*'' @ x @ ''*''"
| "spec_wrap Code x = [CHR 0x60] @ x @ [CHR 0x60]"
| "spec_wrap Strike x = ''~~'' @ x @ ''~~''"
| "spec_wrap (Link href) x = ''['' @ x @ '']('' @ (case href of None \<Rightarrow> [] | Some h \<Rightarrow> h) @ '')''"

definition marked_text :: "string \<Rightarrow> mark list \<Rightarrow> json" where
  "marked_text t ms =
     JObj [(''type'', JStr ''text''), (''text'', JStr t), (''marks'', JArr (map mark_node ms))]"

text \<open>
  A row with cells is one whose \<^verbatim>\<open>content\<close> is a sequence. The table of the specification,
  on the texts of the cells: pipes escaped, the first row as header, a separator of
  \<^verbatim>\<open>---\<close> per header column, the other rows.
\<close>

definition has_cells :: "json \<Rightarrow> bool" where
  "has_cells row = (truthy (get_prop row ''content'') \<and> is_array (get_prop row ''content''))"

definition escape_pipes :: "string \<Rightarrow> string" where
  "escape_pipes s = replace_all CHR ''|'' [CHR 0x5C, CHR ''|''] s"

definition spec_row :: "string list \<Rightarrow> string" where
  "spec_row cells = ''| '' @ join '' | '' cells @ '' |''"

definition spec_table :: "string list list \<Rightarrow> string" where
  "spec_table rows =
     (case map (map escape_pipes) rows of
        [] \<Rightarrow> []
      | header # body \<Rightarrow>
          join [NL] ([spec_row header, spec_row (map (\<lambda>_. ''---'') header)] @ map spec_row body))"



text \<open>Tables of text cells, a hard break and a list item with a nested list, for the examples.\<close>

definition cell_node :: "string \<Rightarrow> json" where
  "cell_node t = JObj [(''type'', JStr ''tableCell''), (''content'', JArr [paragraph_node t])]"

definition row_node :: "string list \<Rightarrow> json" where
  "row_node ts = JObj [(''type'', JStr ''tableRow''), (''content'', JArr (map cell_node ts))]"

definition table_node :: "json list \<Rightarrow> json" where
  "table_node rows = JObj [(''type'', JStr ''table''), (''content'', JArr rows)]"

definition hard_break :: json where
  "hard_break = JObj [(''type'', JStr ''hardBreak'')]"

definition nested_item :: json where
  "nested_item =
     JObj [(''type'', JStr ''listItem''),
           (''content'', JArr [paragraph_node ''a'', list_node Bullet [list_item_node ''b'']])]"

section \<open>Lemmas\<close>

subsection \<open>Evaluation on concrete inputs\<close>

lemmas encoder_eval = convertToADF_def convert_line_def trim_def is_space_def startsWith_def
  numberedMatch_def is_digit_def is_line_terminator_def push_to_current_def open_list_def
  init_state_def heading_cond_def endsWith_def

lemmas node_defs = doc_node_def list_node_def list_item_node_def paragraph_node_def
  text_node_def heading_node_def

lemmas renderer_eval = convertADFToMarkdown_def processNode.simps processListItem.simps
  processTable.simps map_join_def js_join_def render_text_def or_else_def opt_prop_def
  show_int_def show_nat.simps digit_char_def trim_def is_space_def apply_mark_def wrap_def
  markdown_table_def row_line_def as_value_def render_image_def heading_line_def
  repeat_count_def max_string_length_def

lemmas number_eval = string_to_count_def trim_def is_space_def non_decimal_def digits_in_def
  digit_value_def decimal_def is_digit_def exponent_part_def digits_value_def truncated_def
  floor_log2.simps repeat_count_def max_string_length_def

subsection \<open>The encoder keeps its state well formed\<close>

lemmas wf_defs = wf_text_def wf_inline_content_def wf_paragraph_def wf_heading_def
  wf_list_item_def wf_list_def wf_block_def is_string_def

lemma wf_block_paragraph_node: "wf_block (paragraph_node t)"
  by (simp add: wf_defs paragraph_node_def text_node_def)

lemma wf_block_heading_node: "wf_block (heading_node t)"
  by (simp add: wf_defs heading_node_def text_node_def)

lemma wf_list_item_node: "wf_list_item (list_item_node t)"
  by (simp add: wf_defs list_item_node_def paragraph_node_def text_node_def)

lemma wf_block_list_node: "wf_block (list_node lt items) = list_all wf_list_item items"
  by (cases lt) (simp_all add: wf_defs list_node_def)

lemma push_content_list_node:
  "push_content item (list_node lt items) = Inr (list_node lt (items @ [item]))"
  by (simp add: list_node_def)

lemma list_all_update: "list_all P xs \<Longrightarrow> P x \<Longrightarrow> list_all P (xs[i := x])"
  by (induction xs arbitrary: i) (auto split: nat.splits)

lemma elems_content_list_node: "elems (get_prop (list_node lt items) ''content'') = items"
  by (simp add: list_node_def)

text \<open>Pushing an item through the reference of an open list.\<close>

lemma push_to_current_open:
  assumes "currentList st = Some r" "r < length (content st)" "content st ! r = list_node lt items"
  shows "push_to_current item st =
     Inr (st\<lparr>content := (content st)[r := list_node lt (items @ [item])]\<rparr>)"
  using assms by (simp add: push_to_current_def push_content_list_node)

lemma push_to_current_fresh:
  assumes "currentListType st \<noteq> Some lt"
  shows "push_to_current item (open_list lt st) =
     Inr \<lparr>content = content st @ [list_node lt [item]],
          currentList = Some (length (content st)), currentListType = Some lt\<rparr>"
  using assms by (simp add: push_to_current_def open_list_def push_content_list_node)

lemma push_to_current_ok:
  assumes "state_ok st" "wf_list_item item"
  shows "\<exists>st'. push_to_current item (open_list lt st) = Inr st' \<and> state_ok st'"
proof (cases "currentListType st = Some lt")
  case False
  then show ?thesis
    using assms
    by (simp add: push_to_current_fresh state_ok_def list_ref_ok_def wf_block_list_node
        elems_content_list_node)
next
  case True
  with assms(1) obtain r where r: "currentList st = Some r" "r < length (content st)"
    "content st ! r = list_node lt (elems (get_prop (content st ! r) ''content''))"
    by (auto simp: state_ok_def list_ref_ok_def split: option.splits)
  let ?items = "elems (get_prop (content st ! r) ''content'')"
  have wf_old: "list_all wf_list_item ?items"
    using assms(1) r(2,3) wf_block_list_node [of lt ?items]
    by (simp add: state_ok_def list_all_length)
  have "push_to_current item (open_list lt st) =
      Inr (st\<lparr>content := (content st)[r := list_node lt (?items @ [item])]\<rparr>)"
    using True push_to_current_open [OF r(1,2,3)] by (simp add: open_list_def)
  moreover have "state_ok (st\<lparr>content := (content st)[r := list_node lt (?items @ [item])]\<rparr>)"
    using assms True r wf_old
    by (simp add: state_ok_def list_ref_ok_def list_all_update wf_block_list_node
        elems_content_list_node)
  ultimately show ?thesis by blast
qed

lemma convert_line_ok:
  assumes "state_ok st"
  shows "\<exists>st'. convert_line line nextLine is_last st = Inr st' \<and> state_ok st'"
proof -
  have blank: "state_ok (st\<lparr>currentList := None, currentListType := None\<rparr>)"
    using assms by (simp add: state_ok_def list_ref_ok_def)
  have app: "wf_block n \<Longrightarrow> state_ok (st\<lparr>content := content st @ [n]\<rparr>)" for n
    using assms
    by (auto simp: state_ok_def list_ref_ok_def nth_append split: option.splits)
  show ?thesis
    unfolding convert_line_def
    using blank app [OF wf_block_heading_node] app [OF wf_block_paragraph_node]
      push_to_current_ok [OF assms wf_list_item_node]
    by (simp split: option.splits)
qed


lemma state_ok_init: "state_ok init_state"
  by (simp add: state_ok_def list_ref_ok_def init_state_def)



subsection \<open>Headings and runs of bullet lines\<close>

lemma heading_cond_spec:
  assumes "trim line \<noteq> []"
  shows "heading_cond line (case rest of [] \<Rightarrow> [] | nl # _ \<Rightarrow> nl) (rest = []) = spec_heading line rest"
  using assms
  by (cases rest) (auto simp: heading_cond_def spec_heading_def endsWith_def trim_def)

lemma bullet_line_not_blank: "bullet_line l \<Longrightarrow> trim l \<noteq> []"
  by (auto simp: bullet_line_def startsWith_def)

lemma convert_line_bullet:
  assumes "bullet_line l"
  shows "convert_line l nextLine is_last st = push_to_current (bullet_item l) (open_list Bullet st)"
  using assms bullet_line_not_blank [OF assms]
  by (simp add: convert_line_def bullet_line_def bullet_item_def)

lemma bullet_run_open:
  assumes "\<forall>l \<in> set ls. bullet_line l"
    "currentListType st = Some Bullet" "currentList st = Some r" "r < length (content st)"
    "content st ! r = list_node Bullet items"
  shows "convert_lines (ls @ rest) st =
     convert_lines rest
       (st\<lparr>content := (content st)[r := list_node Bullet (items @ map bullet_item ls)]\<rparr>)"
  using assms
proof (induction ls arbitrary: st items)
  case Nil
  then have "(content st)[r := list_node Bullet items] = content st"
    by (metis list_update_id)
  then show ?case by simp
next
  case (Cons l ls)
  let ?st1 = "st\<lparr>content := (content st)[r := list_node Bullet (items @ [bullet_item l])]\<rparr>"
  have step: "convert_line l nl b st = Inr ?st1" for nl b
    using Cons.prems push_to_current_open [of st r Bullet items "bullet_item l"]
    by (simp add: convert_line_bullet open_list_def)
  have "convert_lines (ls @ rest) ?st1 =
     convert_lines rest
       (?st1\<lparr>content := (content ?st1)[r := list_node Bullet ((items @ [bullet_item l]) @ map bullet_item ls)]\<rparr>)"
    by (rule Cons.IH) (use Cons.prems in simp_all)
  then show ?case
    by (simp add: step)
qed

lemma bullet_run_fresh:
  assumes "ls \<noteq> []" "\<forall>l \<in> set ls. bullet_line l" "currentListType st \<noteq> Some Bullet"
  shows "convert_lines (ls @ rest) st =
     convert_lines rest
       \<lparr>content = content st @ [list_node Bullet (map bullet_item ls)],
        currentList = Some (length (content st)), currentListType = Some Bullet\<rparr>"
proof -
  obtain l ls' where ls: "ls = l # ls'"
    using assms(1) by (cases ls) auto
  let ?st1 = "\<lparr>content = content st @ [list_node Bullet [bullet_item l]],
        currentList = Some (length (content st)), currentListType = Some Bullet\<rparr>"
  have step: "convert_line l nl b st = Inr ?st1" for nl b
    using assms(2,3) ls by (simp add: convert_line_bullet push_to_current_fresh)
  have "convert_lines (ls' @ rest) ?st1 =
     convert_lines rest
       (?st1\<lparr>content := (content ?st1)[length (content st) :=
          list_node Bullet ([bullet_item l] @ map bullet_item ls')]\<rparr>)"
    by (rule bullet_run_open) (use assms(2) ls in simp_all)
  then show ?thesis
    by (simp add: ls step)
qed

subsection \<open>Traversals whose results are strings\<close>

lemma all_results_strings: "all_results (map (\<lambda>s. Inr s) ss) = Inr ss"
  by (induction ss) simp_all

lemma js_join_strings: "js_join sep (map JStr ss) = Inr (join sep ss)"
proof -
  have "map (\<lambda>v. if nullish v then Inr [] else to_string v) (map JStr ss) = map (\<lambda>s. Inr s) ss"
    by simp
  then show ?thesis
    by (simp only: js_join_def all_results_strings sum.case)
qed

lemma array_map_from_strings:
  "list_all2 (\<lambda>c s. f c = Inr (JStr s)) xs ss \<Longrightarrow>
     array_map_from i (\<lambda>n k. f n) xs = Inr (map JStr ss)"
  by (induction xs ss arbitrary: i rule: list_all2_induct) simp_all

lemma map_join_strings:
  assumes "list_all2 (\<lambda>c s. f c = Inr (JStr s)) xs ss"
  shows "map_join (\<lambda>n k. f n) sep (JArr xs) = Inr (join sep ss)"
  using array_map_from_strings [OF assms, of 0]
  by (simp add: map_join_def js_join_strings)

subsection \<open>Marks, block quotes and tables\<close>

lemma apply_mark_spec: "apply_mark (JStr t) (mark_node m) = Inr (JStr (spec_wrap m t))"
proof (cases m)
  case (Link href)
  then show ?thesis
    by (cases href) (simp_all add: apply_mark_def wrap_def or_else_def opt_prop_def)
qed (simp_all add: apply_mark_def wrap_def)

lemma apply_marks_spec:
  "apply_marks (JStr t) (map mark_node ms) = Inr (JStr (foldl (\<lambda>acc m. spec_wrap m acc) t ms))"
  by (induction ms arbitrary: t) (simp_all add: apply_mark_spec)

lemma text_marks_fold: "processNode (marked_text t ms) = Inr (JStr (foldl (\<lambda>acc m. spec_wrap m acc) t ms))"
proof (cases "t = []")
  case True
  then show ?thesis
    using apply_marks_spec [of "[]" ms]
    by (simp add: processNode.simps marked_text_def render_text_def or_else_def)
next
  case False
  then show ?thesis
    using apply_marks_spec [of t ms]
    by (simp add: processNode.simps marked_text_def render_text_def or_else_def)
qed

lemma blockquote_render:
  assumes "get_prop node ''type'' = JStr ''blockquote''"
    "get_prop node ''content'' = JArr children"
    "list_all2 (\<lambda>c s. processNode c = Inr (JStr s)) children ss"
  shows "processNode node =
     Inr (JStr (join [NL] (map (\<lambda>line. ''> '' @ line) (split_nl (join [NL, NL] ss)))))"
proof -
  have "truthy node"
    using assms(1) by (cases node) auto
  then show ?thesis
    using assms(1,2) map_join_strings [OF assms(3), of "[NL, NL]"]
    by (simp add: processNode.simps [of node] del: append.simps)
qed

lemma table_cells_texts:
  assumes "\<forall>cell \<in> set cells. \<not> nullish cell \<and>
      map_join (\<lambda>n i. f n) [] (get_prop cell ''content'') = Inr (cell_text cell)"
  shows "table_cells f cells = Inr (map (\<lambda>cell. escape_pipes (cell_text cell)) cells)"
  using assms by (induction cells) (simp_all add: escape_pipes_def)

lemma table_rows_Cons:
  "table_rows f (row # rows) =
     (if nullish row then Inl TypeError
      else if \<not> has_cells row then table_rows f rows
      else (case table_cells f (elems (get_prop row ''content'')) of
              Inl e \<Rightarrow> Inl e
            | Inr cells \<Rightarrow>
                (case table_rows f rows of
                   Inl e \<Rightarrow> Inl e
                 | Inr rest \<Rightarrow> Inr (cells # rest))))"
  by (simp add: has_cells_def)

lemma table_rows_texts:
  assumes "\<forall>row \<in> set rows. \<not> nullish row \<and>
      (has_cells row \<longrightarrow>
         (\<forall>cell \<in> set (elems (get_prop row ''content'')). \<not> nullish cell \<and>
            map_join (\<lambda>n i. f n) [] (get_prop cell ''content'') = Inr (cell_text cell)))"
  shows "table_rows f rows =
     Inr (map (\<lambda>row. map (\<lambda>cell. escape_pipes (cell_text cell)) (elems (get_prop row ''content'')))
            (filter has_cells rows))"
  using assms
proof (induction rows)
  case Nil
  then show ?case by simp
next
  case (Cons r rows)
  have rest: "table_rows f rows =
     Inr (map (\<lambda>row. map (\<lambda>cell. escape_pipes (cell_text cell)) (elems (get_prop row ''content'')))
            (filter has_cells rows))"
    using Cons by simp
  show ?case
  proof (cases "has_cells r")
    case True
    then have "table_cells f (elems (get_prop r ''content'')) =
        Inr (map (\<lambda>cell. escape_pipes (cell_text cell)) (elems (get_prop r ''content'')))"
      using Cons.prems by (intro table_cells_texts) simp
    then show ?thesis
      using True Cons.prems rest by (simp add: table_rows_Cons del: table_rows.simps)
  next
    case False
    then show ?thesis
      using Cons.prems rest by (simp add: table_rows_Cons del: table_rows.simps)
  qed
qed

lemma row_line_spec: "row_line = spec_row"
  by (rule ext) (simp add: row_line_def spec_row_def)

lemma markdown_table_spec: "markdown_table (map (map escape_pipes) rows) = spec_table rows"
  by (cases rows) (simp_all add: markdown_table_def spec_table_def row_line_spec)

lemma table_render:
  assumes "get_prop node ''type'' = JStr ''table''" "get_prop node ''content'' = JArr rows"
    "\<forall>row \<in> set rows. \<not> nullish row \<and>
      (has_cells row \<longrightarrow>
         (\<forall>cell \<in> set (elems (get_prop row ''content'')). \<not> nullish cell \<and>
            map_join (\<lambda>n i. processNode n) [] (get_prop cell ''content'') = Inr (cell_text cell)))"
  shows "processNode node =
     Inr (JStr (spec_table (map (\<lambda>row. map cell_text (elems (get_prop row ''content'')))
                              (filter has_cells rows))))"
proof -
  have node: "truthy node" "\<not> nullish node"
    using assms(1) by (cases node; auto)+
  have tr: "table_rows (\<lambda>n. processNode n) rows =
     Inr (map (map escape_pipes)
            (map (\<lambda>row. map cell_text (elems (get_prop row ''content''))) (filter has_cells rows)))"
    using table_rows_texts [of rows processNode cell_text, OF assms(3)] by (simp add: comp_def)
  have "processTable node =
     Inr (JStr (spec_table (map (\<lambda>row. map cell_text (elems (get_prop row ''content'')))
                              (filter has_cells rows))))"
  proof (cases "rows = []")
    case True
    then show ?thesis
      using node assms(2) by (simp add: processTable.simps [of node] spec_table_def)
  next
    case False
    then have "processTable node =
        (case table_rows processNode rows of
           Inl e \<Rightarrow> Inl e
         | Inr tableRows \<Rightarrow> Inr (JStr (markdown_table tableRows)))"
      using node assms(2) by (simp add: processTable.simps [of node])
    then show ?thesis
      by (simp only: tr sum.case markdown_table_spec)
  qed
  then show ?thesis
    using node assms(1) by (simp add: processNode.simps [of node])
qed

subsection \<open>Trimming\<close>

lemma trim_hd: "trim s \<noteq> [] \<Longrightarrow> \<not> is_space (hd (trim s))"
proof -
  assume ne: "trim s \<noteq> []"
  let ?ys = "dropWhile is_space s"
  have "trim s = take (length (trim s)) ?ys"
    unfolding trim_def
    by (metis append_eq_conv_conj rev_append rev_rev_ident takeWhile_dropWhile_id)
  then have "hd (trim s) = hd ?ys"
    using ne by (metis hd_take length_greater_0_conv)
  moreover have "?ys \<noteq> []"
  proof
    assume "?ys = []"
    then have "trim s = []" by (simp only: trim_def rev.simps dropWhile.simps)
    with ne show False by simp
  qed
  ultimately show ?thesis
    using hd_dropWhile [of is_space s] by simp
qed

lemma trim_last: "trim s \<noteq> [] \<Longrightarrow> \<not> is_space (last (trim s))"
proof -
  assume ne: "trim s \<noteq> []"
  then have "dropWhile is_space (rev (dropWhile is_space s)) \<noteq> []"
    by (simp add: trim_def)
  then show ?thesis
    using hd_dropWhile [of is_space "rev (dropWhile is_space s)"]
    by (simp add: trim_def last_rev)
qed

lemma trim_Nil: "trim [] = []"
  by (simp add: trim_def)

lemma trim_fixed:
  assumes "t \<noteq> []" "\<not> is_space (hd t)" "\<not> is_space (last t)"
  shows "trim t = t"
proof -
  have "dropWhile is_space t = t"
    using assms(2) by (simp add: dropWhile_eq_self_iff)
  moreover have "dropWhile is_space (rev t) = rev t"
    using assms(1,3) by (simp add: dropWhile_eq_self_iff hd_rev)
  ultimately show ?thesis
    by (simp add: trim_def)
qed

lemma trim_idem: "trim (trim s) = trim s"
proof (cases "trim s = []")
  case True
  then show ?thesis by (simp add: trim_Nil)
next
  case False
  then show ?thesis
    by (intro trim_fixed trim_hd trim_last)
qed

lemma convertADFToMarkdown_trimmed:
  assumes "convertADFToMarkdown adf = Inr s"
  shows "trim s = s \<and> (s = [] \<or> (\<not> is_space (hd s) \<and> \<not> is_space (last s)))"
proof -
  have "s = [] \<or> (\<exists>x. s = trim x)"
    using assms by (auto simp: convertADFToMarkdown_def split: if_splits sum.splits)
  then show ?thesis
    using trim_hd trim_last trim_idem by (auto simp: trim_Nil)
qed

subsection \<open>The heading marker on levels that are no numbers\<close>

text \<open>
  A level that is a string is converted as a numeral: surrounding white space is dropped,
  a fraction is cut off, a hexadecimal literal is read, and a string that is no numeral
  gives the empty marker. An infinite level, a negative one and one beyond the longest
  string are refused.
\<close>

lemma repeat_hash_levels:
  "repeat_hash (JStr ''3'') = Inr (replicate 3 CHR ''#'')"
  "repeat_hash (JStr '' 2.7 '') = Inr (replicate 2 CHR ''#'')"
  "repeat_hash (JStr ''0x2'') = Inr (replicate 2 CHR ''#'')"
  "repeat_hash (JStr ''1e1'') = Inr (replicate 10 CHR ''#'')"
  "repeat_hash (JStr ''two'') = Inr []"
  "repeat_hash (JStr ''-0.5'') = Inr []"
  "repeat_hash (JStr ''-1'') = Inl RangeError"
  "repeat_hash (JStr ''Infinity'') = Inl RangeError"
  "repeat_hash (JStr ''1e10'') = Inl RangeError"
  "repeat_hash (JArr [JNum 2]) = Inr (replicate 2 CHR ''#'')"
  "repeat_hash (JArr [JNum 1, JNum 2]) = Inr []"
  "repeat_hash (JArr []) = Inr []"
  "repeat_hash (JBool True) = Inr ''#''"
  "repeat_hash JNull = Inr []"
  "repeat_hash (JObj []) = Inr []"
  "repeat_hash (JNum 1073741824) = Inl RangeError"
  "repeat_hash (JNum 536870889) = Inl RangeError"
  by (simp_all add: number_eval js_join_def show_int_def show_nat.simps digit_char_def)

lemma heading_line_too_long:
  "heading_line (replicate max_string_length CHR ''#'') [] = Inl RangeError"
  by (simp add: heading_line_def)

subsection \<open>Nodes that stay in the content\<close>

text \<open>
  The loop changes a node of the content only through \<^verbatim>\<open>currentList\<close>, which refers to a
  list node: a heading or a paragraph that was pushed stays where it is.
\<close>

lemma convert_line_plain:
  assumes "plain_line line"
  shows "convert_line line nextLine is_last st =
     Inr (st\<lparr>content := content st @
       [if heading_cond line nextLine is_last then heading_node (trim line)
        else paragraph_node line]\<rparr>)"
  using assms by (simp add: convert_line_def plain_line_def)

lemma push_to_current_keeps:
  assumes "state_ok st" "push_to_current item (open_list lt st) = Inr st'"
    "x \<in> set (content st)" "\<forall>lt items. x \<noteq> list_node lt items"
  shows "x \<in> set (content st')"
proof (cases "currentListType st = Some lt")
  case False
  then show ?thesis
    using assms(2,3) by (auto simp: push_to_current_fresh)
next
  case True
  with assms(1) obtain r where r: "currentList st = Some r" "r < length (content st)"
    "content st ! r = list_node lt (elems (get_prop (content st ! r) ''content''))"
    by (auto simp: state_ok_def list_ref_ok_def split: option.splits)
  let ?items = "elems (get_prop (content st ! r) ''content'')"
  have st': "st' = st\<lparr>content := (content st)[r := list_node lt (?items @ [item])]\<rparr>"
    using True assms(2) push_to_current_open [OF r(1,2,3)] by (simp add: open_list_def)
  obtain i where i: "i < length (content st)" "content st ! i = x"
    using assms(3) by (auto simp: in_set_conv_nth)
  have "i \<noteq> r"
    using i(2) r(3) assms(4) by metis
  then have "(content st)[r := list_node lt (?items @ [item])] ! i = x"
    using i(2) by simp
  then show ?thesis
    using i(1) st' by (metis length_list_update nth_mem select_convs(1) surjective update_convs(1))
qed

lemma convert_line_keeps:
  assumes "state_ok st" "convert_line l nl b st = Inr st'"
    "x \<in> set (content st)" "\<forall>lt items. x \<noteq> list_node lt items"
  shows "x \<in> set (content st')"
  using assms(2,3) push_to_current_keeps [OF assms(1) _ assms(3,4)]
  unfolding convert_line_def
  by (auto split: if_splits option.splits)

lemma convert_lines_keeps:
  assumes "state_ok st" "x \<in> set (content st)" "\<forall>lt items. x \<noteq> list_node lt items"
  shows "\<exists>st'. convert_lines ls st = Inr st' \<and> x \<in> set (content st')"
  using assms(1,2)
proof (induction ls arbitrary: st)
  case Nil
  then show ?case by simp
next
  case (Cons l ls)
  obtain st1 where st1:
    "convert_line l (case ls of [] \<Rightarrow> [] | nl # _ \<Rightarrow> nl) (ls = []) st = Inr st1" "state_ok st1"
    using convert_line_ok [OF Cons.prems(1)] by blast
  have "x \<in> set (content st1)"
    using convert_line_keeps [OF Cons.prems(1) st1(1) Cons.prems(2) assms(3)] .
  with Cons.IH [OF st1(2)] st1(1) show ?case by simp
qed

lemma plain_line_node:
  assumes "plain_line line" "state_ok st"
  shows "\<exists>st'. convert_lines (pre @ line # rest) st = Inr st' \<and>
     (if spec_heading line rest then heading_node (trim line) else paragraph_node line)
       \<in> set (content st')"
  using assms(2)
proof (induction pre arbitrary: st)
  case Nil
  let ?n = "if spec_heading line rest then heading_node (trim line) else paragraph_node line"
  let ?st1 = "st\<lparr>content := content st @ [?n]\<rparr>"
  have "trim line \<noteq> []"
    using assms(1) by (simp add: plain_line_def)
  then have step: "convert_line line (case rest of [] \<Rightarrow> [] | nl # _ \<Rightarrow> nl) (rest = []) st = Inr ?st1"
    using convert_line_plain [OF assms(1)] heading_cond_spec [of line rest] by simp
  have ok: "state_ok ?st1"
    using convert_line_ok [OF Nil, of line "case rest of [] \<Rightarrow> [] | nl # _ \<Rightarrow> nl" "rest = []"] step
    by simp
  have "\<forall>lt items. ?n \<noteq> list_node lt items"
    by (auto simp: heading_node_def paragraph_node_def list_node_def split: list_type.splits)
  moreover have "?n \<in> set (content ?st1)"
    by simp
  ultimately have "\<exists>st'. convert_lines rest ?st1 = Inr st' \<and> ?n \<in> set (content st')"
    using convert_lines_keeps [OF ok] by blast
  then show ?case
    using step by simp
next
  case (Cons p pre)
  obtain st1 where st1:
    "convert_line p (case pre @ line # rest of [] \<Rightarrow> [] | nl # _ \<Rightarrow> nl) (pre @ line # rest = []) st
       = Inr st1" "state_ok st1"
    using convert_line_ok [OF Cons.prems] by blast
  with Cons.IH [OF st1(2)] show ?case by simp
qed

subsection \<open>The fallback of the field sets\<close>

lemma getJiraFields_fallback:
  assumes "s \<notin> set [''basic'', ''navigable'', ''full'']" "s \<notin> set Object_prototype_keys"
  shows "getJiraFields (Some s) = FieldList [''*navigable'', ''Rank'']"
proof -
  have "map_of FIELD_SETS s = None"
    using assms by (simp add: FIELD_SETS_def)
  then have "field_sets_get s = None"
    using assms by (simp add: field_sets_get_def)
  moreover have "field_sets_get ''navigable'' = Some (FieldList [''*navigable'', ''Rank''])"
    by (simp add: field_sets_get_def FIELD_SETS_def)
  ultimately show ?thesis
    by (simp add: getJiraFields_def)
qed

section \<open>Claims\<close>

subsection \<open>Totality of the two transforms\<close>




subsection \<open>Headings and paragraphs\<close>

text \<open>
  Claim C2. On a line that is not blank, not a bullet line and not an ordered-list line,
  the loop body pushes exactly one node onto the content and leaves the rest of the state
  as it was. The node is a heading with \<^verbatim>\<open>attrs.level = 2\<close> around the trimmed line if and
  only if the next line is blank or the line is the last one, the trimmed line does not
  end in a period, a question mark or an exclamation mark, and its trimmed length is under
  50; otherwise it is a paragraph around one text leaf that carries the line untrimmed.
  Wherever such a line stands in the input, that node is in the content of the document
  \<^verbatim>\<open>convertToADF\<close> returns.
\<close>

theorem C2_heading_or_paragraph:
  assumes "plain_line line"
  shows "convert_line line nextLine is_last st =
           Inr (st\<lparr>content := content st @
                  [if (trim nextLine = [] \<or> is_last) \<and>
                      \<not> endsWith (trim line) CHR ''.'' \<and>
                      \<not> endsWith (trim line) CHR ''?'' \<and>
                      \<not> endsWith (trim line) CHR ''!'' \<and>
                      length (trim line) < 50
                   then JObj [(''type'', JStr ''heading''),
                       (''attrs'', JObj [(''level'', JNum 2)]),
                       (''content'', JArr [JObj [(''type'', JStr ''text''),
                                                 (''text'', JStr (trim line))]])]
                   else JObj [(''type'', JStr ''paragraph''),
                       (''content'', JArr [JObj [(''type'', JStr ''text''),
                                                 (''text'', JStr line)]])]]\<rparr>) \<and>
         (\<forall>txt pre rest. split_nl txt = pre @ line # rest \<longrightarrow>
            (\<exists>c. convertToADF txt =
                   Inr (JObj [(''version'', JNum 1), (''type'', JStr ''doc''), (''content'', JArr c)]) \<and>
                 (if spec_heading line rest
                  then JObj [(''type'', JStr ''heading''),
                       (''attrs'', JObj [(''level'', JNum 2)]),
                       (''content'', JArr [JObj [(''type'', JStr ''text''),
                                                 (''text'', JStr (trim line))]])]
                  else JObj [(''type'', JStr ''paragraph''),
                       (''content'', JArr [JObj [(''type'', JStr ''text''),
                                                 (''text'', JStr line)]])]) \<in> set c))"
proof -
  have "trim line \<noteq> []"
    using assms by (simp add: plain_line_def)
  then have step: "convert_line line nextLine is_last st =
           Inr (st\<lparr>content := content st @
                  [if (trim nextLine = [] \<or> is_last) \<and>
                      \<not> endsWith (trim line) CHR ''.'' \<and>
                      \<not> endsWith (trim line) CHR ''?'' \<and>
                      \<not> endsWith (trim line) CHR ''!'' \<and>
                      length (trim line) < 50
                   then JObj [(''type'', JStr ''heading''),
                       (''attrs'', JObj [(''level'', JNum 2)]),
                       (''content'', JArr [JObj [(''type'', JStr ''text''),
                                                 (''text'', JStr (trim line))]])]
                   else JObj [(''type'', JStr ''paragraph''),
                       (''content'', JArr [JObj [(''type'', JStr ''text''),
                                                 (''text'', JStr line)]])]]\<rparr>)"
    using convert_line_plain [OF assms, of nextLine is_last st]
    by (simp add: heading_cond_def heading_node_def paragraph_node_def text_node_def)
  have doc: "\<exists>c. convertToADF s =
                   Inr (JObj [(''version'', JNum 1), (''type'', JStr ''doc''), (''content'', JArr c)]) \<and>
                 (if spec_heading line rest
                  then JObj [(''type'', JStr ''heading''),
                       (''attrs'', JObj [(''level'', JNum 2)]),
                       (''content'', JArr [JObj [(''type'', JStr ''text''),
                                                 (''text'', JStr (trim line))]])]
                  else JObj [(''type'', JStr ''paragraph''),
                       (''content'', JArr [JObj [(''type'', JStr ''text''),
                                                 (''text'', JStr line)]])]) \<in> set c"
    if "split_nl s = pre @ line # rest" for s pre rest
  proof -
    obtain st' where st': "convert_lines (pre @ line # rest) init_state = Inr st'"
      "(if spec_heading line rest then heading_node (trim line) else paragraph_node line)
         \<in> set (content st')"
      using plain_line_node [OF assms state_ok_init] by blast
    have "convertToADF s = Inr (doc_node (content st'))"
      using that st'(1) by (simp add: convertToADF_def)
    then show ?thesis
      using st'(2)
      by (auto simp: doc_node_def heading_node_def paragraph_node_def text_node_def
          split: if_splits)
  qed
  show ?thesis
    using step doc by blast
qed

theorem C2_witness:
  "plain_line ''Release notes'' \<and>
   convert_line ''Release notes'' [] False init_state =
     Inr (init_state\<lparr>content :=
       [JObj [(''type'', JStr ''heading''), (''attrs'', JObj [(''level'', JNum 2)]),
              (''content'', JArr [JObj [(''type'', JStr ''text''),
                                        (''text'', JStr ''Release notes'')]])]]\<rparr>) \<and>
   plain_line '' It ships today.'' \<and>
   (\<exists>c. convertToADF ''- a\<newline>Release notes\<newline>\<newline> It ships today.\<newline>- b'' =
          Inr (JObj [(''version'', JNum 1), (''type'', JStr ''doc''), (''content'', JArr c)]) \<and>
        JObj [(''type'', JStr ''paragraph''),
              (''content'', JArr [JObj [(''type'', JStr ''text''),
                                        (''text'', JStr '' It ships today.'')]])] \<in> set c)"
proof -
  have p1: "plain_line ''Release notes''"
    by (simp add: plain_line_def encoder_eval)
  have p2: "plain_line '' It ships today.''"
    by (simp add: plain_line_def encoder_eval)
  have t: "trim ''Release notes'' = ''Release notes''" "trim [] = []"
    "\<not> endsWith ''Release notes'' CHR ''.''" "\<not> endsWith ''Release notes'' CHR ''?''"
    "\<not> endsWith ''Release notes'' CHR ''!''" "content init_state = []"
    by (simp_all add: trim_def is_space_def endsWith_def init_state_def)
  have s1: "convert_line ''Release notes'' [] False init_state =
     Inr (init_state\<lparr>content :=
       [JObj [(''type'', JStr ''heading''), (''attrs'', JObj [(''level'', JNum 2)]),
              (''content'', JArr [JObj [(''type'', JStr ''text''),
                                        (''text'', JStr ''Release notes'')]])]]\<rparr>)"
    using C2_heading_or_paragraph [OF p1, of "[]" False init_state, THEN conjunct1]
    by (simp add: t)
  have sp: "split_nl ''- a\<newline>Release notes\<newline>\<newline> It ships today.\<newline>- b'' =
      [''- a'', ''Release notes'', ''''] @ '' It ships today.'' # [''- b'']"
    by simp
  have h2: "\<not> spec_heading '' It ships today.'' [''- b'']"
    by (simp add: spec_heading_def encoder_eval)
  have s2: "\<exists>c. convertToADF ''- a\<newline>Release notes\<newline>\<newline> It ships today.\<newline>- b'' =
          Inr (JObj [(''version'', JNum 1), (''type'', JStr ''doc''), (''content'', JArr c)]) \<and>
        JObj [(''type'', JStr ''paragraph''),
              (''content'', JArr [JObj [(''type'', JStr ''text''),
                                        (''text'', JStr '' It ships today.'')]])] \<in> set c"
    using C2_heading_or_paragraph [OF p2, THEN conjunct2, rule_format, OF sp] h2
    by (simp only: if_False)
  show ?thesis
    by (rule conjI p1 s1 p2 s2)+
qed

subsection \<open>Ordered lists lose their numerals\<close>



subsection \<open>Bullet lists\<close>

text \<open>
  Claim C4, on the code as it is. Encoding the two lines \<^verbatim>\<open>- a\<close> and \<^verbatim>\<open>- b\<close> gives a document
  whose content is exactly one \<^verbatim>\<open>bulletList\<close> node with two \<^verbatim>\<open>listItem\<close> children holding the
  texts \<^verbatim>\<open>a\<close> and \<^verbatim>\<open>b\<close>. The three lines \<^verbatim>\<open>- a\<close>, \<^verbatim>\<open>p.\<close> and \<^verbatim>\<open>- c\<close> hold two runs of bullet
  lines with a paragraph between them, and their encoding holds one \<^verbatim>\<open>bulletList\<close> node, not
  two: the item of the second run is added to the node of the first, ahead of the
  paragraph. Only a blank line closes a list; with a blank line in place of the paragraph
  each run has its own node.
\<close>

theorem C4_bullet_run_joins_earlier_list:
  "convertToADF ''- a\<newline>- b'' =
     Inr (JObj [(''version'', JNum 1), (''type'', JStr ''doc''),
          (''content'', JArr
            [JObj [(''type'', JStr ''bulletList''),
                   (''content'', JArr
               [JObj [(''type'', JStr ''listItem''),
                 (''content'', JArr [JObj [(''type'', JStr ''paragraph''),
                   (''content'', JArr [JObj [(''type'', JStr ''text''), (''text'', JStr ''a'')]])]])],
                JObj [(''type'', JStr ''listItem''),
                 (''content'', JArr [JObj [(''type'', JStr ''paragraph''),
                   (''content'', JArr [JObj [(''type'', JStr ''text''), (''text'', JStr ''b'')]])]])]])]])]) \<and>
   convertToADF ''- a\<newline>p.\<newline>- c'' =
     Inr (JObj [(''version'', JNum 1), (''type'', JStr ''doc''),
          (''content'', JArr
            [JObj [(''type'', JStr ''bulletList''),
                   (''content'', JArr
               [JObj [(''type'', JStr ''listItem''),
                 (''content'', JArr [JObj [(''type'', JStr ''paragraph''),
                   (''content'', JArr [JObj [(''type'', JStr ''text''), (''text'', JStr ''a'')]])]])],
                JObj [(''type'', JStr ''listItem''),
                 (''content'', JArr [JObj [(''type'', JStr ''paragraph''),
                   (''content'', JArr [JObj [(''type'', JStr ''text''), (''text'', JStr ''c'')]])]])]])],
             JObj [(''type'', JStr ''paragraph''),
                   (''content'', JArr [JObj [(''type'', JStr ''text''), (''text'', JStr ''p.'')]])]])]) \<and>
   convertToADF ''- a\<newline>\<newline>- c'' =
     Inr (JObj [(''version'', JNum 1), (''type'', JStr ''doc''),
          (''content'', JArr
            [JObj [(''type'', JStr ''bulletList''),
                   (''content'', JArr
               [JObj [(''type'', JStr ''listItem''),
                 (''content'', JArr [JObj [(''type'', JStr ''paragraph''),
                   (''content'', JArr [JObj [(''type'', JStr ''text''), (''text'', JStr ''a'')]])]])]])],
             JObj [(''type'', JStr ''bulletList''),
                   (''content'', JArr
               [JObj [(''type'', JStr ''listItem''),
                 (''content'', JArr [JObj [(''type'', JStr ''paragraph''),
                   (''content'', JArr [JObj [(''type'', JStr ''text''), (''text'', JStr ''c'')]])]])]])]])])"
  by (simp add: encoder_eval node_defs)

theorem C4_witness:
  "\<exists>d. convertToADF ''- a\<newline>p.\<newline>- c'' = Inr d \<and>
       map (\<lambda>n. get_prop n ''type'') (elems (get_prop d ''content'')) =
         [JStr ''bulletList'', JStr ''paragraph'']"
  using C4_bullet_run_joins_earlier_list by simp

subsection \<open>Marks\<close>

text \<open>
  Claim C5. The marks of a text node are applied as nested wrappings in the order of the
  \<^verbatim>\<open>marks\<close> sequence: the rendering is the left fold of the wrappings over the text. With
  the marks \<^verbatim>\<open>strong\<close> then \<^verbatim>\<open>em\<close> the text \<^verbatim>\<open>x\<close> renders as \<^verbatim>\<open>***x***\<close>; a link mark wraps
  the text so far as \<^verbatim>\<open>[x](href)\<close>, with the empty string for an absent \<^verbatim>\<open>href\<close>.
\<close>

theorem C5_marks_nest_in_order:
  "(\<forall>t ms. processNode (marked_text t ms) =
            Inr (JStr (foldl (\<lambda>acc m. spec_wrap m acc) t ms))) \<and>
   processNode (marked_text ''x'' [Strong, Em]) = Inr (JStr ''***x***'') \<and>
   processNode (marked_text ''x'' [Link None]) = Inr (JStr ''[x]()'') \<and>
   processNode (marked_text ''x'' [Strong, Link (Some ''u'')]) = Inr (JStr ''[**x**](u)'')"
  by (simp add: text_marks_fold)

theorem C5_witness:
  "processNode (marked_text ''x'' [Code, Strike, Link (Some ''http://h'')]) =
     Inr (JStr ([CHR ''['', CHR ''~'', CHR ''~'', CHR 0x60, CHR ''x'', CHR 0x60, CHR ''~'', CHR ''~'',
                 CHR '']''] @ ''(http://h)''))"
  using C5_marks_nest_in_order by simp

subsection \<open>Tables\<close>

text \<open>
  Claim C6, on the code as it is. The table of the two rows \<^verbatim>\<open>H1, H2\<close> and \<^verbatim>\<open>a, b\<close> renders
  as exactly three lines: the header, the separator with \<^verbatim>\<open>---\<close> for each column, the data
  row, each written \<^verbatim>\<open>| cell | cell |\<close>. A \<^verbatim>\<open>|\<close> in a cell is escaped by a backslash, a table
  with no rows renders as the empty string, and a row that is an object whose \<^verbatim>\<open>content\<close> is
  absent or a string is skipped. A row that is \<^verbatim>\<open>null\<close> is not skipped and a cell that is
  \<^verbatim>\<open>null\<close> is not rendered: \<^verbatim>\<open>processTable\<close> reads \<^verbatim>\<open>row.content\<close> and \<^verbatim>\<open>cell.content\<close>
  without the test for a missing node that \<^verbatim>\<open>processNode\<close> starts with, and raises a
  TypeError.
\<close>

theorem C6_table_null_row_raises:
  "processNode
     (JObj [(''type'', JStr ''table''), (''content'', JArr
         [JObj [(''type'', JStr ''tableRow''), (''content'', JArr
            [JObj [(''type'', JStr ''tableCell''), (''content'', JArr [JObj [(''type'', JStr ''paragraph''), (''content'', JArr [JObj [(''type'', JStr ''text''), (''text'', JStr ''H1'')]])]])],
             JObj [(''type'', JStr ''tableCell''), (''content'', JArr [JObj [(''type'', JStr ''paragraph''), (''content'', JArr [JObj [(''type'', JStr ''text''), (''text'', JStr ''H2'')]])]])]])],
          JObj [(''type'', JStr ''tableRow''), (''content'', JArr
            [JObj [(''type'', JStr ''tableCell''), (''content'', JArr [JObj [(''type'', JStr ''paragraph''), (''content'', JArr [JObj [(''type'', JStr ''text''), (''text'', JStr ''a'')]])]])],
             JObj [(''type'', JStr ''tableCell''), (''content'', JArr [JObj [(''type'', JStr ''paragraph''), (''content'', JArr [JObj [(''type'', JStr ''text''), (''text'', JStr ''b'')]])]])]])]])]) =
     Inr (JStr ''| H1 | H2 |\<newline>| --- | --- |\<newline>| a | b |'') \<and>
   length (split_nl ''| H1 | H2 |\<newline>| --- | --- |\<newline>| a | b |'') = 3 \<and>
   processNode
     (JObj [(''type'', JStr ''table''), (''content'', JArr
         [JObj [(''type'', JStr ''tableRow''), (''content'', JArr
            [JObj [(''type'', JStr ''tableCell''), (''content'', JArr [JObj [(''type'', JStr ''paragraph''), (''content'', JArr [JObj [(''type'', JStr ''text''), (''text'', JStr ''x|y'')]])]])]])]])]) =
     Inr (JStr ([CHR ''|'', CHR '' '', CHR ''x'', CHR 0x5C, CHR ''|'', CHR ''y''] @
                '' |\<newline>| --- |'')) \<and>
   processNode (JObj [(''type'', JStr ''table''), (''content'', JArr [])]) = Inr (JStr []) \<and>
   processNode
     (JObj [(''type'', JStr ''table''), (''content'', JArr
         [JObj [(''type'', JStr ''tableRow'')],
          JObj [(''type'', JStr ''tableRow''), (''content'', JStr ''c'')],
          JObj [(''type'', JStr ''tableRow''), (''content'', JArr
            [JObj [(''type'', JStr ''tableCell''), (''content'', JArr [JObj [(''type'', JStr ''paragraph''), (''content'', JArr [JObj [(''type'', JStr ''text''), (''text'', JStr ''a'')]])]])]])]])]) =
     Inr (JStr ''| a |\<newline>| --- |'') \<and>
   processNode
     (JObj [(''type'', JStr ''table''), (''content'', JArr
         [JObj [(''type'', JStr ''tableRow''), (''content'', JArr
            [JObj [(''type'', JStr ''tableCell''), (''content'', JArr [JObj [(''type'', JStr ''paragraph''), (''content'', JArr [JObj [(''type'', JStr ''text''), (''text'', JStr ''a'')]])]])]])],
          JNull])]) =
     Inl TypeError \<and>
   processNode
     (JObj [(''type'', JStr ''table''), (''content'', JArr
         [JObj [(''type'', JStr ''tableRow''), (''content'', JArr [JNull])]])]) =
     Inl TypeError \<and>
   processNode JNull = Inr (JStr [])"
  by (simp add: renderer_eval)

theorem C6_witness:
  "\<exists>rows. processNode (JObj [(''type'', JStr ''table''), (''content'', JArr rows)]) =
            Inl TypeError \<and>
          JNull \<in> set rows"
proof -
  have "processNode
     (JObj [(''type'', JStr ''table''), (''content'', JArr
         [JObj [(''type'', JStr ''tableRow''), (''content'', JArr
            [JObj [(''type'', JStr ''tableCell''), (''content'', JArr [JObj [(''type'', JStr ''paragraph''), (''content'', JArr [JObj [(''type'', JStr ''text''), (''text'', JStr ''a'')]])]])]])],
          JNull])]) =
     Inl TypeError"
    using C6_table_null_row_raises by simp
  then show ?thesis
    by (rule_tac x = "[JObj [(''type'', JStr ''tableRow''), (''content'', JArr
            [JObj [(''type'', JStr ''tableCell''), (''content'', JArr [JObj [(''type'', JStr ''paragraph''), (''content'', JArr [JObj [(''type'', JStr ''text''), (''text'', JStr ''a'')]])]])]])], JNull]" in exI) simp
qed

subsection \<open>Field sets\<close>



subsection \<open>Block quotes\<close>

text \<open>
  Claim C8, as amended. The rendering of a blockquote node is the renderings of its
  children joined by a blank line (two newlines), every line of the joined text then
  prefixed by \<^verbatim>\<open>> \<close>.
\<close>

theorem C8_blockquote_blank_line_joined:
  assumes "get_prop node ''type'' = JStr ''blockquote''"
    and "get_prop node ''content'' = JArr children"
    and "list_all2 (\<lambda>c s. processNode c = Inr (JStr s)) children ss"
  shows "processNode node =
     Inr (JStr (join [NL] (map (\<lambda>line. ''> '' @ line) (split_nl (join [NL, NL] ss)))))"
  using assms by (rule blockquote_render)

theorem C8_witness:
  "processNode (JObj [(''type'', JStr ''blockquote''),
                      (''content'', JArr [paragraph_node ''a'', paragraph_node ''b''])]) =
     Inr (JStr ''> a\<newline>> \<newline>> b'')"
proof -
  let ?q = "JObj [(''type'', JStr ''blockquote''),
                  (''content'', JArr [paragraph_node ''a'', paragraph_node ''b''])]"
  have c: "list_all2 (\<lambda>c s. processNode c = Inr (JStr s))
      [paragraph_node ''a'', paragraph_node ''b''] [''a'', ''b'']"
    by (simp add: renderer_eval node_defs)
  have "processNode ?q =
      Inr (JStr (join [NL] (map (\<lambda>line. ''> '' @ line) (split_nl (join [NL, NL] [''a'', ''b''])))))"
    by (rule C8_blockquote_blank_line_joined [OF _ _ c]) simp_all
  then show ?thesis
    by simp
qed

text \<open>
  Where the claim as stated fails: two paragraphs in a quote are three lines, the middle
  one the prefix alone, where joining by single newlines would give two.
\<close>

theorem C8_counterexample:
  "processNode (JObj [(''type'', JStr ''blockquote''),
                      (''content'', JArr [paragraph_node ''a'', paragraph_node ''b''])]) =
     Inr (JStr ''> a\<newline>> \<newline>> b'') \<and>
   join [NL] (map (\<lambda>line. ''> '' @ line) (split_nl (join [NL] [''a'', ''b'']))) =
     ''> a\<newline>> b'' \<and>
   ''> a\<newline>> \<newline>> b'' \<noteq> ''> a\<newline>> b''"
  by (simp add: renderer_eval node_defs)

subsection \<open>List items\<close>

text \<open>
  Claim C9, on the code as it is. Rendered as a child of a list, a list item's children
  are concatenated with no separator by \<^verbatim>\<open>processListItem\<close>: an item made of the paragraph
  \<^verbatim>\<open>a\<close> and a nested bullet list with the item \<^verbatim>\<open>b\<close> renders as \<^verbatim>\<open>- a- b\<close>. The \<^verbatim>\<open>listItem\<close>
  case of \<^verbatim>\<open>processNode\<close> joins the same children by a newline; had \<^verbatim>\<open>processListItem\<close> done
  so, its re-indentation of newlines would have given \<^verbatim>\<open>- a\<close> and, indented by two spaces,
  \<^verbatim>\<open>- b\<close>.
\<close>

theorem C9_list_item_children_concatenated:
  "processNode (list_node Bullet [nested_item]) = Inr (JStr ''- a- b'') \<and>
   processNode nested_item = Inr (JStr ''a\<newline>- b'') \<and>
   ''- '' @ replace_all NL [NL, CHR '' '', CHR '' ''] ''a\<newline>- b'' = ''- a\<newline>  - b''"
  by (simp add: renderer_eval node_defs nested_item_def)

theorem C9_witness:
  "\<exists>s. processNode (list_node Bullet [nested_item]) = Inr (JStr s) \<and> NL \<notin> set s"
  using C9_list_item_children_concatenated by auto

subsection \<open>Trimming at the entry point\<close>

text \<open>
  Claim C10. Whatever the input, a string returned by \<^verbatim>\<open>convertADFToMarkdown\<close> has no
  leading and no trailing white space: trimming leaves it unchanged. A document whose only
  child is a \<^verbatim>\<open>hardBreak\<close> renders as the empty string, though the \<^verbatim>\<open>hardBreak\<close> case gives a
  newline. Only the entry point trims: \<^verbatim>\<open>processNode\<close> on a \<^verbatim>\<open>doc\<close> node keeps the newline,
  also when the \<^verbatim>\<open>doc\<close> node is inside a paragraph.
\<close>

theorem C10_top_level_trimmed:
  "(\<forall>adf s. convertADFToMarkdown adf = Inr s \<longrightarrow>
      trim s = s \<and> (s = [] \<or> (\<not> is_space (hd s) \<and> \<not> is_space (last s)))) \<and>
   processNode hard_break = Inr (JStr [NL]) \<and>
   convertADFToMarkdown (doc_node [hard_break]) = Inr [] \<and>
   processNode (doc_node [hard_break]) = Inr (JStr [NL]) \<and>
   convertADFToMarkdown
     (JArr [JObj [(''type'', JStr ''paragraph''),
                  (''content'', JArr [text_node ''a'', doc_node [hard_break], text_node ''b''])]]) =
     Inr ''a\<newline>b''"
proof -
  have ex: "processNode hard_break = Inr (JStr [NL])"
    "convertADFToMarkdown (doc_node [hard_break]) = Inr []"
    "processNode (doc_node [hard_break]) = Inr (JStr [NL])"
    "convertADFToMarkdown
     (JArr [JObj [(''type'', JStr ''paragraph''),
                  (''content'', JArr [text_node ''a'', doc_node [hard_break], text_node ''b''])]]) =
     Inr ''a\<newline>b''"
    by (simp_all add: renderer_eval node_defs hard_break_def)
  show ?thesis
    using convertADFToMarkdown_trimmed ex by blast
qed

theorem C10_witness:
  "convertADFToMarkdown (doc_node [hard_break, paragraph_node ''  a b '', hard_break]) = Inr ''a b'' \<and>
   trim ''a b'' = ''a b'' \<and> \<not> is_space (hd ''a b'') \<and> \<not> is_space (last ''a b'')"
proof -
  have r: "convertADFToMarkdown (doc_node [hard_break, paragraph_node ''  a b '', hard_break]) =
      Inr ''a b''"
    by (simp add: renderer_eval node_defs hard_break_def)
  with C10_top_level_trimmed
  have "trim ''a b'' = ''a b'' \<and> (''a b'' = [] \<or> (\<not> is_space (hd ''a b'') \<and> \<not> is_space (last ''a b'')))"
    by blast
  with r show ?thesis
    by simp
qed

end
